theory Spec2Isabelle
  imports Main "HOL-Library.Sublist" "HOL-Library.AList"
begin

section \<open>JavaScript strings\<close>

text \<open>
  A JavaScript string is modelled as a \<open>string\<close>, one \<open>char\<close> per code unit, for the code
  units below 256. The patterns and the generic words of the source are ASCII; \<open>trim\<close>
  removes the white space and line terminators that exist below 256, among them the
  no-break space \<open>0xA0\<close>. \<open>toLowerCase\<close> is modelled on the ASCII letters: the source only
  compares its result with ASCII words, and a code unit from 128 on stays one from 128 on.
\<close>

definition newline :: char where
  "newline = CHR 0x0A"

text \<open>
  The white space and line terminators removed by \<open>String.prototype.trim\<close>: blank, tab,
  line feed, vertical tab, form feed, carriage return and the no-break space.
\<close>

definition is_space :: "char \<Rightarrow> bool" where
  "is_space c =
     (c \<in> set [CHR 0x20, CHR 0x09, CHR 0x0A, CHR 0x0B, CHR 0x0C, CHR 0x0D, CHR 0xA0])"

definition trim :: "string \<Rightarrow> string" where
  "trim s = rev (dropWhile is_space (rev (dropWhile is_space s)))"

text \<open>\<open>s.split(sep)\<close> for a one-character separator: never the empty array.\<close>

fun split_on :: "char \<Rightarrow> string \<Rightarrow> string list" where
  "split_on sep [] = [[]]"
| "split_on sep (c # cs) =
     (if c = sep then [] # split_on sep cs
      else (case split_on sep cs of
              [] \<Rightarrow> [[c]]
            | l # ls \<Rightarrow> (c # l) # ls))"

text \<open>\<open>xs.join(sep)\<close>.\<close>

fun join_with :: "string \<Rightarrow> string list \<Rightarrow> string" where
  "join_with sep [] = []"
| "join_with sep [x] = x"
| "join_with sep (x # y # ys) = x @ sep @ join_with sep (y # ys)"

text \<open>\<open>out.trim().split('\n').filter(Boolean)\<close>: the non-empty lines of a command's output.\<close>

definition output_lines :: "string \<Rightarrow> string list" where
  "output_lines out = filter (\<lambda>l. l \<noteq> []) (split_on newline (trim out))"

definition lower_letters :: string where
  "lower_letters = ''abcdefghijklmnopqrstuvwxyz''"

definition upper_letters :: string where
  "upper_letters = ''ABCDEFGHIJKLMNOPQRSTUVWXYZ''"

definition lower_char :: "char \<Rightarrow> char" where
  "lower_char c = (case map_of (zip upper_letters lower_letters) c of
                     None \<Rightarrow> c
                   | Some l \<Rightarrow> l)"

definition toLowerCase :: "string \<Rightarrow> string" where
  "toLowerCase s = map lower_char s"

definition endsWith :: "string \<Rightarrow> char \<Rightarrow> bool" where
  "endsWith s c = (case rev s of [] \<Rightarrow> False | l # _ \<Rightarrow> l = c)"

section \<open>Regular expressions\<close>

text \<open>
  A pattern is a backtracking matcher: it maps the input to the remainders left after
  every way of matching a prefix of it. \<open>regex_test\<close> is \<open>RegExp.prototype.test\<close> for a
  pattern that starts with \<open>^\<close> and has no flags: some prefix of the input matches.
\<close>

type_synonym matcher = "string \<Rightarrow> string list"

fun strip_literal :: "string \<Rightarrow> string \<Rightarrow> string option" where
  "strip_literal [] inp = Some inp"
| "strip_literal (p # ps) [] = None"
| "strip_literal (p # ps) (c # cs) = (if p = c then strip_literal ps cs else None)"

definition lit :: "string \<Rightarrow> matcher" where
  "lit s inp = (case strip_literal s inp of None \<Rightarrow> [] | Some r \<Rightarrow> [r])"

definition alt :: "matcher list \<Rightarrow> matcher" where
  "alt ms inp = concat (map (\<lambda>m. m inp) ms)"

definition opt :: "matcher \<Rightarrow> matcher" where
  "opt m inp = m inp @ [inp]"

definition seq :: "matcher \<Rightarrow> matcher \<Rightarrow> matcher" where
  "seq m1 m2 inp = concat (map m2 (m1 inp))"

text \<open>One character of a class, and one or more of them (longest match first).\<close>

definition one_of :: "(char \<Rightarrow> bool) \<Rightarrow> matcher" where
  "one_of P inp = (case inp of [] \<Rightarrow> [] | c # cs \<Rightarrow> if P c then [cs] else [])"

fun plus_of :: "(char \<Rightarrow> bool) \<Rightarrow> matcher" where
  "plus_of P [] = []"
| "plus_of P (c # cs) = (if P c then plus_of P cs @ [cs] else [])"

definition regex_test :: "matcher \<Rightarrow> string \<Rightarrow> bool" where
  "regex_test m s = (m s \<noteq> [])"

text \<open>The character classes \<open>[^)]\<close>, \<open>.\<close> (anything but a line terminator) and \<open>[a-z]\<close>.\<close>

definition not_rparen :: "char \<Rightarrow> bool" where
  "not_rparen c = (c \<noteq> CHR '')'')"

definition dot :: "char \<Rightarrow> bool" where
  "dot c = (c \<noteq> CHR 0x0A \<and> c \<noteq> CHR 0x0D)"

definition lower_az :: "char \<Rightarrow> bool" where
  "lower_az c = (c \<in> set lower_letters)"

definition commit_types :: "string list" where
  "commit_types = [''feat'', ''fix'', ''docs'', ''style'', ''refactor'', ''test'',
                   ''chore'', ''perf'', ''ci'', ''build'', ''revert'']"

text \<open>\<open>(feat|fix|docs|style|refactor|test|chore|perf|ci|build|revert)\<close>\<close>

definition type_group :: matcher where
  "type_group = alt (map lit commit_types)"

text \<open>\<open>(\([^)]+\))\<close>\<close>

definition scope_group :: matcher where
  "scope_group = seq (lit ''('') (seq (plus_of not_rparen) (lit '')''))"

text \<open>\<open>/^(feat|...|revert)(\([^)]+\))?: .+/\<close>\<close>

definition conventionalPattern :: matcher where
  "conventionalPattern =
     seq type_group (seq (opt scope_group) (seq (lit '': '') (plus_of dot)))"

text \<open>\<open>/^(feat|...|revert)?(\([^)]+\))?: [a-z]/\<close>\<close>

definition presentTensePattern :: matcher where
  "presentTensePattern =
     seq (opt type_group) (seq (opt scope_group) (seq (lit '': '') (one_of lower_az)))"

section \<open>Options\<close>

text \<open>
  A property of an options object is absent, present with the value \<open>undefined\<close>
  (as the command line passes every option it was not given), or defined.
\<close>

datatype 'a js_prop = Absent | Undefined | Defined 'a

record RewriteOptions =
  dryRun :: "bool js_prop"
  verbose :: "bool js_prop"
  maxCommits :: "int js_prop"
  skipBackup :: "bool js_prop"
  skipWellFormed :: "bool js_prop"
  minQualityScore :: "int js_prop"

text \<open>\<open>{ key: dflt, ...options }\<close>: a present property, even an undefined one, wins.\<close>

definition spread :: "'a \<Rightarrow> 'a js_prop \<Rightarrow> 'a js_prop" where
  "spread dflt p = (case p of Absent \<Rightarrow> Defined dflt | Undefined \<Rightarrow> Undefined | Defined v \<Rightarrow> Defined v)"

text \<open>The options the constructor stores in \<open>this.options\<close>.\<close>

definition constructor_options :: "RewriteOptions \<Rightarrow> RewriteOptions" where
  "constructor_options options =
     \<lparr> dryRun = spread False (dryRun options),
       verbose = spread False (verbose options),
       maxCommits = maxCommits options,
       skipBackup = spread False (skipBackup options),
       skipWellFormed = spread True (skipWellFormed options),
       minQualityScore = spread 7 (minQualityScore options) \<rparr>"

text \<open>Truthiness of a boolean property, and \<open>n || dflt\<close> for a numeric one.\<close>

definition truthy :: "bool js_prop \<Rightarrow> bool" where
  "truthy p = (p = Defined True)"

definition number_or :: "int js_prop \<Rightarrow> int \<Rightarrow> int" where
  "number_or p dflt = (case p of Defined n \<Rightarrow> if n = 0 then dflt else n | _ \<Rightarrow> dflt)"

section \<open>Quality assessment\<close>

record quality =
  score :: int
  isWellFormed :: bool
  reason :: string

definition genericMessages :: "string list" where
  "genericMessages = [''update'', ''fix'', ''change'', ''modify'', ''commit'', ''initial'',
                      ''test'', ''wip'']"

definition firstLine_of :: "string \<Rightarrow> string" where
  "firstLine_of message = (case split_on newline message of [] \<Rightarrow> [] | l # _ \<Rightarrow> l)"

definition isGeneric :: "string \<Rightarrow> bool" where
  "isGeneric message =
     list_ex (\<lambda>generic. toLowerCase message = generic
                      \<or> toLowerCase message = generic @ ''.''
                      \<or> toLowerCase message = generic @ '' commit'') genericMessages"

text \<open>
  The five checks of \<open>assessCommitQuality\<close>, in the order of the source: each returns the
  points it adds and the reason tags it pushes.
\<close>

definition check_conventional :: "string \<Rightarrow> int \<times> string list" where
  "check_conventional message =
     (if regex_test conventionalPattern message then (4, [''follows conventional format''])
      else (0, []))"

definition check_length :: "string \<Rightarrow> int \<times> string list" where
  "check_length message =
     (let firstLine = firstLine_of message in
      if length firstLine \<ge> 10 \<and> length firstLine \<le> 72 then (2, [''appropriate length''])
      else if length firstLine < 10 then (0, [''too short''])
      else (0, [''too long'']))"

definition check_descriptive :: "string \<Rightarrow> int \<times> string list" where
  "check_descriptive message =
     (if \<not> isGeneric message then (2, [''descriptive'']) else (0, [''too generic'']))"

definition check_present_tense :: "string \<Rightarrow> int \<times> string list" where
  "check_present_tense message =
     (if regex_test presentTensePattern message then (1, [''uses present tense''])
      else (0, []))"

definition check_trailing_period :: "string \<Rightarrow> int \<times> string list" where
  "check_trailing_period message =
     (if \<not> endsWith (firstLine_of message) (CHR ''.'') then (1, [''no trailing period''])
      else (0, []))"

definition quality_checks :: "string \<Rightarrow> (int \<times> string list) list" where
  "quality_checks message =
     [check_conventional message, check_length message, check_descriptive message,
      check_present_tense message, check_trailing_period message]"

definition assessCommitQuality :: "RewriteOptions \<Rightarrow> string \<Rightarrow> quality" where
  "assessCommitQuality options message =
     (let score = sum_list (map fst (quality_checks message));
          reasons = concat (map snd (quality_checks message))
      in \<lparr> score = score,
           isWellFormed = (score \<ge> number_or (minQualityScore options) 7),
           reason = join_with '', '' reasons \<rparr>)"

text \<open>The constructor's default parameter \<open>options = {}\<close>: no property is present.\<close>

definition no_options :: RewriteOptions where
  "no_options =
     \<lparr> dryRun = Absent, verbose = Absent, maxCommits = Absent, skipBackup = Absent,
       skipWellFormed = Absent, minQualityScore = Absent \<rparr>"

text \<open>
  The present-tense rule as the specification words it, for comparison with
  \<open>check_present_tense\<close>: strip an optional conventional prefix \<open>type(scope): \<close> from the
  first line, then ask for a lower-case letter.
\<close>

definition spec_present_tense :: "string \<Rightarrow> bool" where
  "spec_present_tense message =
     regex_test
       (seq (opt (seq type_group (seq (opt scope_group) (lit '': '')))) (one_of lower_az))
       (firstLine_of message)"

section \<open>The git commands and the provider\<close>

text \<open>
  Every shell command the class runs. \<open>DiffTreeRoot\<close> is the diff against the empty tree,
  \<open>DiffTreeParent\<close> the diff \<open>hash^..hash\<close>; \<open>FilterBranch\<close> is
  \<open>git filter-branch -f --msg-filter 'node <script>' HEAD\<close>.
\<close>

datatype git_command =
    RevParseGitDir
  | RevParseAbbrevRef
  | StatusPorcelain
  | RevListReverse
  | LogSubject string
  | DiffTreeNames string
  | DiffTreeRoot string
  | DiffTreeParent string
  | LogBody string
  | Branch string
  | FilterBranch

datatype error = CommandFailed git_command | NotAGitRepository

text \<open>The standard output of each command; \<open>None\<close> when the command fails.\<close>

type_synonym git = "git_command \<Rightarrow> string option"

definition execCommand :: "git \<Rightarrow> git_command \<Rightarrow> error + string" where
  "execCommand g command =
     (case g command of None \<Rightarrow> Inl (CommandFailed command) | Some out \<Rightarrow> Inr out)"

text \<open>
  What the provider answers to one request: the call throws, the response carries no
  content (no choice, no message, no text), or it carries a text.
\<close>

datatype provider_reply = ApiError | NoContent | Content string

text \<open>
  The prompt is a fixed template around three interpolated values; the request is
  modelled by these three values.
\<close>

record gen_request =
  prompt_oldMessage :: string
  prompt_files :: string
  prompt_diff :: string

definition generateCommitMessage ::
  "(gen_request \<Rightarrow> provider_reply) \<Rightarrow> string \<Rightarrow> string list \<Rightarrow> string \<Rightarrow> string" where
  "generateCommitMessage create d fs oldMessage =
     (case create \<lparr> prompt_oldMessage = oldMessage,
                    prompt_files = join_with [newline] fs,
                    prompt_diff = take 8000 d \<rparr> of
        ApiError \<Rightarrow> oldMessage
      | NoContent \<Rightarrow> oldMessage
      | Content text \<Rightarrow> (if trim text = [] then oldMessage else trim text))"

record CommitInfo =
  hash :: string
  message :: string
  files :: "string list"
  diff :: string

definition getCommits :: "RewriteOptions \<Rightarrow> git \<Rightarrow> error + string list" where
  "getCommits options g =
     (case execCommand g RevListReverse of
        Inl err \<Rightarrow> Inl err
      | Inr out \<Rightarrow>
          (let commits = output_lines out in
           case maxCommits options of
             Defined n \<Rightarrow>
               if n \<noteq> 0 \<and> n > 0
               then Inr (drop (nat (max 0 (int (length commits) - n))) commits)
               else Inr commits
           | _ \<Rightarrow> Inr commits))"

definition getCommitInfo :: "git \<Rightarrow> string \<Rightarrow> nat \<Rightarrow> error + CommitInfo" where
  "getCommitInfo g h index =
     (case execCommand g (LogSubject h) of
        Inl err \<Rightarrow> Inl err
      | Inr subject \<Rightarrow>
     (case execCommand g (DiffTreeNames h) of
        Inl err \<Rightarrow> Inl err
      | Inr names \<Rightarrow>
     (case execCommand g (if index = 0 then DiffTreeRoot h else DiffTreeParent h) of
        Inl err \<Rightarrow> Inl err
      | Inr d \<Rightarrow>
          Inr \<lparr> hash = h, message = trim subject, files = output_lines names, diff = d \<rparr>)))"

section \<open>The run\<close>

text \<open>
  The state a run can change. \<open>history\<close> lists the commits reachable from \<open>HEAD\<close>, oldest
  first, each named by the identifier it had when the run started, with its message.
  (Git gives every rewritten commit a new identifier; the model keeps the old name to
  say which commit received which message.) The three files live in \<open>.git\<close>:
  \<open>commit-message-map.json\<close>, \<open>commit-counter.txt\<close> and \<open>filter-msg.js\<close>.
\<close>

record world =
  history :: "(string \<times> string) list"
  branches :: "string list"
  mappingFile :: "string list option"
  counterFile :: "nat option"
  filterScript :: bool

datatype question = ContinueAnyway | Proceed | Apply

text \<open>
  What surrounds a run: the git commands' answers, the provider's reply to the request
  made for the commit at each index, the user's answer to each question, the clock.
\<close>

record env =
  git :: git
  provider :: "nat \<Rightarrow> gen_request \<Rightarrow> provider_reply"
  answer :: "question \<Rightarrow> string"
  now :: string

definition askConfirmation :: "env \<Rightarrow> question \<Rightarrow> bool" where
  "askConfirmation e q = (toLowerCase (answer e q) = ''y'' \<or> toLowerCase (answer e q) = ''yes'')"

text \<open>What the run prints per commit, and the questions it asks.\<close>

datatype event =
    Asked question
  | Skipped string int
  | Improved string string
  | Kept string
  | Failed string error

record loop_state =
  messageMap :: "(string \<times> string) list"
  skippedCount :: nat
  improvedCount :: nat
  events :: "event list"

definition initial_loop_state :: loop_state where
  "initial_loop_state = \<lparr> messageMap = [], skippedCount = 0, improvedCount = 0, events = [] \<rparr>"

text \<open>
  One iteration of the loop over the commits. The \<open>try\<close> block covers the whole body, so
  a failed command of \<open>getCommitInfo\<close> ends the iteration with a report; nothing else in
  the body throws. The pause of 500 ms after a generation is not modelled.
\<close>

definition process_commit :: "RewriteOptions \<Rightarrow> env \<Rightarrow> nat \<Rightarrow> string \<Rightarrow> loop_state \<Rightarrow> loop_state" where
  "process_commit options e i h st =
     (case getCommitInfo (git e) h i of
        Inl err \<Rightarrow> st\<lparr>events := events st @ [Failed h err]\<rparr>
      | Inr commitInfo \<Rightarrow>
          (let q = assessCommitQuality options (message commitInfo) in
           if truthy (skipWellFormed options) \<and> isWellFormed q
           then st\<lparr>skippedCount := skippedCount st + 1,
                   events := events st @ [Skipped h (score q)]\<rparr>
           else
             (let newMessage = generateCommitMessage (provider e i)
                                 (diff commitInfo) (files commitInfo) (message commitInfo) in
              if newMessage \<noteq> message commitInfo
              then st\<lparr>messageMap := AList.update h newMessage (messageMap st),
                      improvedCount := improvedCount st + 1,
                      events := events st @ [Improved h newMessage]\<rparr>
              else st\<lparr>events := events st @ [Kept h]\<rparr>)))"

fun process_commits ::
  "RewriteOptions \<Rightarrow> env \<Rightarrow> nat \<Rightarrow> string list \<Rightarrow> loop_state \<Rightarrow> loop_state" where
  "process_commits options e i [] st = st"
| "process_commits options e i (h # hs) st =
     process_commits options e (Suc i) hs (process_commit options e i h st)"

text \<open>
  The ordered list of messages: the new message of a commit that has a (truthy) entry in
  \<open>messageMap\<close>, else the full message \<open>%B\<close> read again from git, trimmed.
\<close>

definition plan_entry :: "git \<Rightarrow> (string \<times> string) list \<Rightarrow> string \<Rightarrow> error + string" where
  "plan_entry g mm commit =
     (case map_of mm commit of
        Some m \<Rightarrow>
          if m \<noteq> [] then Inr m
          else (case execCommand g (LogBody commit) of
                  Inl err \<Rightarrow> Inl err | Inr out \<Rightarrow> Inr (trim out))
      | None \<Rightarrow>
          (case execCommand g (LogBody commit) of
             Inl err \<Rightarrow> Inl err | Inr out \<Rightarrow> Inr (trim out)))"

fun orderedMessages :: "git \<Rightarrow> (string \<times> string) list \<Rightarrow> string list \<Rightarrow> error + string list" where
  "orderedMessages g mm [] = Inr []"
| "orderedMessages g mm (commit # commits) =
     (case plan_entry g mm commit of
        Inl err \<Rightarrow> Inl err
      | Inr m \<Rightarrow>
          (case orderedMessages g mm commits of
             Inl err \<Rightarrow> Inl err
           | Inr ms \<Rightarrow> Inr (m # ms)))"

text \<open>
  The filter script written by \<open>rewriteHistory\<close>: it reads the message list and the
  counter, stores the counter plus one, and prints \<open>messages[counter]\<close> when that is
  truthy, else the trimmed message it read from standard input.
\<close>

definition msg_filter :: "string list \<Rightarrow> nat \<Rightarrow> string \<Rightarrow> string \<times> nat" where
  "msg_filter messages counter oldMessage =
     (let newMessage = (if counter < length messages then Some (messages ! counter) else None)
      in (case newMessage of
            Some m \<Rightarrow> if m \<noteq> [] then m else trim oldMessage
          | None \<Rightarrow> trim oldMessage,
          counter + 1))"

text \<open>
  \<open>git filter-branch --msg-filter ... HEAD\<close> runs the filter once for every commit
  reachable from \<open>HEAD\<close>, oldest first, and gives the commit the message the filter
  prints. The counter file carries the counter from one call to the next.
\<close>

fun filter_branch ::
  "string list \<Rightarrow> nat \<Rightarrow> (string \<times> string) list \<Rightarrow> (string \<times> string) list \<times> nat" where
  "filter_branch messages counter [] = ([], counter)"
| "filter_branch messages counter ((h, m) # cs) =
     (let (out, counter') = msg_filter messages counter m;
          (rest, counter'') = filter_branch messages counter' cs
      in ((h, out) # rest, counter''))"

definition cleanup :: "world \<Rightarrow> world" where
  "cleanup w = w\<lparr>filterScript := False, mappingFile := None, counterFile := None\<rparr>"

text \<open>
  \<open>rewriteHistory\<close>: write the counter and the script, run the rewrite, and delete the
  three files in the \<open>finally\<close> block. A failed rewrite leaves the history as it was.
\<close>

definition rewriteHistory :: "env \<Rightarrow> world \<Rightarrow> (error + unit) \<times> world" where
  "rewriteHistory e w =
     (let w1 = w\<lparr>counterFile := Some 0, filterScript := True\<rparr> in
      case execCommand (git e) FilterBranch of
        Inl err \<Rightarrow> (Inl err, cleanup w1)
      | Inr _ \<Rightarrow>
          (case mappingFile w1 of
             None \<Rightarrow> (Inl (CommandFailed FilterBranch), cleanup w1)
           | Some messages \<Rightarrow>
               (let (rewritten, counter) = filter_branch messages 0 (history w1)
                in (Inr (), cleanup (w1\<lparr>history := rewritten, counterFile := Some counter\<rparr>)))))"

datatype outcome =
    Thrown error
  | Exited
  | NoCommits
  | NothingToChange
  | DryRunCompleted
  | Cancelled
  | Rewritten

record run =
  outcome :: outcome
  final :: world
  trace :: "event list"

text \<open>\<open>createBackupBranch\<close>: the branch \<open>backup-<branch>-<now>\<close>.\<close>

definition createBackupBranch :: "env \<Rightarrow> string \<Rightarrow> world \<Rightarrow> error + world" where
  "createBackupBranch e currentBranch w =
     (let backupBranch = ''backup-'' @ currentBranch @ ''-'' @ now e in
      case execCommand (git e) (Branch backupBranch) of
        Inl err \<Rightarrow> Inl err
      | Inr _ \<Rightarrow> Inr (w\<lparr>branches := branches w @ [backupBranch]\<rparr>))"

text \<open>
  The second half of \<open>rewrite\<close>, from the loop over the commits to the end: \<open>tr\<close> is the
  trace so far.
\<close>

definition plan_and_apply ::
  "RewriteOptions \<Rightarrow> env \<Rightarrow> string list \<Rightarrow> world \<Rightarrow> event list \<Rightarrow> run" where
  "plan_and_apply options e commits w tr =
     (let st = process_commits options e 0 commits initial_loop_state;
          tr1 = tr @ events st
      in case orderedMessages (git e) (messageMap st) commits of
           Inl err \<Rightarrow> \<lparr> outcome = Thrown err, final = w, trace = tr1 \<rparr>
         | Inr ordered \<Rightarrow>
             (let w1 = w\<lparr>mappingFile := Some ordered\<rparr>;
                  changedCount = length (messageMap st)
              in if changedCount = 0
                 then \<lparr> outcome = NothingToChange, final = w1, trace = tr1 \<rparr>
                 else if truthy (dryRun options)
                 then \<lparr> outcome = DryRunCompleted, final = w1, trace = tr1 \<rparr>
                 else if \<not> askConfirmation e Apply
                 then \<lparr> outcome = Cancelled, final = w1, trace = tr1 @ [Asked Apply] \<rparr>
                 else (case rewriteHistory e w1 of
                         (Inl err, w2) \<Rightarrow>
                           \<lparr> outcome = Thrown err, final = w2, trace = tr1 @ [Asked Apply] \<rparr>
                       | (Inr _, w2) \<Rightarrow>
                           \<lparr> outcome = Rewritten, final = w2, trace = tr1 @ [Asked Apply] \<rparr>)))"

text \<open>\<open>rewrite\<close>, the public entry point.\<close>

definition rewrite :: "RewriteOptions \<Rightarrow> env \<Rightarrow> world \<Rightarrow> run" where
  "rewrite options e w =
     (case execCommand (git e) RevParseGitDir of
        Inl _ \<Rightarrow> \<lparr> outcome = Thrown NotAGitRepository, final = w, trace = [] \<rparr>
      | Inr _ \<Rightarrow>
     (case execCommand (git e) RevParseAbbrevRef of
        Inl err \<Rightarrow> \<lparr> outcome = Thrown err, final = w, trace = [] \<rparr>
      | Inr branch_out \<Rightarrow>
     (case execCommand (git e) StatusPorcelain of
        Inl err \<Rightarrow> \<lparr> outcome = Thrown err, final = w, trace = [] \<rparr>
      | Inr status \<Rightarrow>
          if status \<noteq> [] \<and> \<not> askConfirmation e ContinueAnyway
          then \<lparr> outcome = Exited, final = w, trace = [Asked ContinueAnyway] \<rparr>
          else
            (let tr = (if status \<noteq> [] then [Asked ContinueAnyway] else []) in
             case getCommits options (git e) of
               Inl err \<Rightarrow> \<lparr> outcome = Thrown err, final = w, trace = tr \<rparr>
             | Inr commits \<Rightarrow>
                 if commits = []
                 then \<lparr> outcome = NoCommits, final = w, trace = tr \<rparr>
                 else if \<not> truthy (dryRun options) \<and> \<not> askConfirmation e Proceed
                 then \<lparr> outcome = Exited, final = w, trace = tr @ [Asked Proceed] \<rparr>
                 else
                   (let tr1 = tr @ (if \<not> truthy (dryRun options) then [Asked Proceed] else [])
                    in if \<not> truthy (skipBackup options) \<and> \<not> truthy (dryRun options)
                       then (case createBackupBranch e (trim branch_out) w of
                               Inl err \<Rightarrow> \<lparr> outcome = Thrown err, final = w, trace = tr1 \<rparr>
                             | Inr w1 \<Rightarrow> plan_and_apply options e commits w1 tr1)
                       else plan_and_apply options e commits w tr1)))))"

section \<open>Example repositories\<close>

text \<open>
  A healthy repository holding the given commits (identifier, subject, full message,
  changed paths, patch), oldest first, on branch \<open>main\<close> with a clean working tree: every
  command succeeds, except the diff of the root commit against a parent it does not have.
\<close>

record commit =
  c_id :: string
  c_subject :: string
  c_body :: string
  c_paths :: "string list"
  c_patch :: string

definition unlines :: "string list \<Rightarrow> string" where
  "unlines ls = concat (map (\<lambda>l. l @ [newline]) ls)"

definition find_commit :: "commit list \<Rightarrow> string \<Rightarrow> commit option" where
  "find_commit cs h = find (\<lambda>c. c_id c = h) cs"

definition git_of :: "commit list \<Rightarrow> git" where
  "git_of cs command =
     (case command of
        RevParseGitDir \<Rightarrow> Some (unlines [''.git''])
      | RevParseAbbrevRef \<Rightarrow> Some (unlines [''main''])
      | StatusPorcelain \<Rightarrow> Some []
      | RevListReverse \<Rightarrow> Some (unlines (map c_id cs))
      | LogSubject h \<Rightarrow> map_option (\<lambda>c. unlines [c_subject c]) (find_commit cs h)
      | DiffTreeNames h \<Rightarrow> map_option (\<lambda>c. unlines (c_paths c)) (find_commit cs h)
      | DiffTreeRoot h \<Rightarrow> map_option c_patch (find_commit cs h)
      | DiffTreeParent h \<Rightarrow>
          (if map c_id (take 1 cs) = [h] then None else map_option c_patch (find_commit cs h))
      | LogBody h \<Rightarrow> map_option (\<lambda>c. c_body c @ [newline]) (find_commit cs h)
      | Branch name \<Rightarrow> Some []
      | FilterBranch \<Rightarrow> Some [])"

definition world_of :: "commit list \<Rightarrow> world" where
  "world_of cs =
     \<lparr> history = map (\<lambda>c. (c_id c, c_body c @ [newline])) cs, branches = [],
       mappingFile = None, counterFile = None, filterScript = False \<rparr>"

definition three_commits :: "commit list" where
  "three_commits =
     [\<lparr> c_id = ''a1'', c_subject = ''initial'', c_body = ''initial'',
        c_paths = [''README.md''], c_patch = ''+hello'' \<rparr>,
      \<lparr> c_id = ''b2'', c_subject = ''update'', c_body = ''update'',
        c_paths = [''parser.ts''], c_patch = ''+parse'' \<rparr>,
      \<lparr> c_id = ''c3'', c_subject = ''wip'', c_body = ''wip'',
        c_paths = [''cli.ts''], c_patch = ''+cli'' \<rparr>]"

text \<open>A provider that answers each of the three old messages with a conventional one.\<close>

definition helpful_provider :: "nat \<Rightarrow> gen_request \<Rightarrow> provider_reply" where
  "helpful_provider i r =
     (if prompt_oldMessage r = ''initial'' then Content ''chore: add readme''
      else if prompt_oldMessage r = ''update'' then Content ''feat: add parser''
      else if prompt_oldMessage r = ''wip'' then Content ''feat: add cli''
      else NoContent)"

text \<open>A provider that is down, and one that answers with white space only.\<close>

definition failing_provider :: "nat \<Rightarrow> gen_request \<Rightarrow> provider_reply" where
  "failing_provider i r = (if even i then ApiError else if i = 1 then NoContent else Content ''  '')"

text \<open>A provider whose call for the third commit (index 2) throws; the others succeed.\<close>

definition flaky_provider :: "nat \<Rightarrow> gen_request \<Rightarrow> provider_reply" where
  "flaky_provider i r = (if i = 2 then ApiError else helpful_provider i r)"

text \<open>
  Three commits with a body below the subject line: the first is well-formed, the other
  two are not. The provider repeats the old message, except for \<open>update\<close>.
\<close>

definition described_commits :: "commit list" where
  "described_commits =
     [\<lparr> c_id = ''d1'', c_subject = ''feat: add parser'',
        c_body = ''feat: add parser'' @ [newline, newline] @ ''Hand-written, no generator.'',
        c_paths = [''parser.ts''], c_patch = ''+parse'' \<rparr>,
      \<lparr> c_id = ''e2'', c_subject = ''wip'',
        c_body = ''wip'' @ [newline, newline] @ ''Cache lookups in the resolver.'',
        c_paths = [''resolver.ts''], c_patch = ''+cache'' \<rparr>,
      \<lparr> c_id = ''f3'', c_subject = ''update'',
        c_body = ''update'' @ [newline, newline] @ ''Closes the socket on exit.'',
        c_paths = [''net.ts''], c_patch = ''+close'' \<rparr>]"

definition echo_provider :: "nat \<Rightarrow> gen_request \<Rightarrow> provider_reply" where
  "echo_provider i r =
     (if prompt_oldMessage r = ''update'' then Content ''fix(net): close socket on exit''
      else Content (prompt_oldMessage r))"

text \<open>The user answers every question with \<open>y\<close>.\<close>

definition yes_env :: "commit list \<Rightarrow> env" where
  "yes_env cs =
     \<lparr> git = git_of cs, provider = helpful_provider, answer = (\<lambda>q. ''y''),
       now = ''1700000000000'' \<rparr>"

section \<open>Notions used to state the properties\<close>

text \<open>
  The entry that the iteration for commit \<open>h\<close> at index \<open>i\<close> stores in \<open>messageMap\<close>, if
  it stores one: read off \<open>process_commit\<close>.
\<close>

definition new_message_for :: "RewriteOptions \<Rightarrow> env \<Rightarrow> nat \<Rightarrow> string \<Rightarrow> string option" where
  "new_message_for options e i h =
     (case getCommitInfo (git e) h i of
        Inl err \<Rightarrow> None
      | Inr commitInfo \<Rightarrow>
          if truthy (skipWellFormed options)
             \<and> isWellFormed (assessCommitQuality options (message commitInfo))
          then None
          else if generateCommitMessage (provider e i)
                    (diff commitInfo) (files commitInfo) (message commitInfo)
                  \<noteq> message commitInfo
          then Some (generateCommitMessage (provider e i)
                       (diff commitInfo) (files commitInfo) (message commitInfo))
          else None)"

text \<open>
  A failed provider call: the call throws, the response has no content, or the content
  is empty once trimmed.
\<close>

definition provider_failed :: "provider_reply \<Rightarrow> bool" where
  "provider_failed r =
     (case r of ApiError \<Rightarrow> True | NoContent \<Rightarrow> True | Content text \<Rightarrow> trim text = [])"

text \<open>An error that a failed git command explains.\<close>

definition git_failure :: "git \<Rightarrow> error \<Rightarrow> bool" where
  "git_failure g err =
     (case err of NotAGitRepository \<Rightarrow> g RevParseGitDir = None | CommandFailed c \<Rightarrow> g c = None)"

section \<open>Properties of the regular expressions\<close>

lemma strip_literal_iff: "strip_literal p inp = Some r \<longleftrightarrow> inp = p @ r"
  by (induction p inp rule: strip_literal.induct) auto

lemma set_lit: "r \<in> set (lit s inp) \<longleftrightarrow> inp = s @ r"
proof (cases "strip_literal s inp")
  case None
  with strip_literal_iff [of s inp r] show ?thesis by (auto simp: lit_def)
next
  case (Some a)
  with strip_literal_iff [of s inp] show ?thesis by (auto simp: lit_def)
qed

lemma set_opt: "r \<in> set (opt m inp) \<longleftrightarrow> r = inp \<or> r \<in> set (m inp)"
  by (auto simp: opt_def)

lemma set_seq: "r \<in> set (seq a b inp) \<longleftrightarrow> (\<exists>mid \<in> set (a inp). r \<in> set (b mid))"
  by (auto simp: seq_def)

lemma set_one_of: "r \<in> set (one_of P inp) \<longleftrightarrow> (\<exists>c. P c \<and> inp = c # r)"
  by (auto simp: one_of_def split: list.splits)

lemma set_plus_of:
  "r \<in> set (plus_of P inp) \<longleftrightarrow> (\<exists>p. p \<noteq> [] \<and> list_all P p \<and> inp = p @ r)"
proof (induction inp)
  case Nil
  then show ?case by simp
next
  case (Cons c cs)
  show ?case
  proof (cases "P c")
    case False
    then show ?thesis by (auto simp: Cons_eq_append_conv)
  next
    case True
    show ?thesis
    proof
      assume "r \<in> set (plus_of P (c # cs))"
      with True have "r \<in> set (plus_of P cs) \<or> r = cs" by auto
      then show "\<exists>p. p \<noteq> [] \<and> list_all P p \<and> c # cs = p @ r"
      proof
        assume "r \<in> set (plus_of P cs)"
        with Cons.IH obtain p where "p \<noteq> []" "list_all P p" "cs = p @ r" by blast
        with True have "c # p \<noteq> [] \<and> list_all P (c # p) \<and> c # cs = (c # p) @ r" by simp
        then show ?thesis by blast
      next
        assume "r = cs"
        with True have "[c] \<noteq> [] \<and> list_all P [c] \<and> c # cs = [c] @ r" by simp
        then show ?thesis by blast
      qed
    next
      assume "\<exists>p. p \<noteq> [] \<and> list_all P p \<and> c # cs = p @ r"
      then obtain p where p: "p \<noteq> []" "list_all P p" "c # cs = p @ r" by blast
      then obtain q where q: "p = c # q" by (cases p) auto
      show "r \<in> set (plus_of P (c # cs))"
      proof (cases "q = []")
        case True
        with p q \<open>P c\<close> show ?thesis by simp
      next
        case False
        with p q have "r \<in> set (plus_of P cs)" using Cons.IH by auto
        with \<open>P c\<close> show ?thesis by simp
      qed
    qed
  qed
qed

lemma set_type_group:
  "r \<in> set (type_group inp) \<longleftrightarrow> (\<exists>t \<in> set commit_types. inp = t @ r)"
  by (auto simp: type_group_def alt_def set_lit)

lemma set_scope_group:
  "r \<in> set (scope_group inp) \<longleftrightarrow>
     (\<exists>s. s \<noteq> [] \<and> list_all not_rparen s \<and> inp = ''('' @ s @ '')'' @ r)"
  by (auto simp: scope_group_def set_seq set_lit set_plus_of)

lemma regex_test_iff: "regex_test m s \<longleftrightarrow> (\<exists>r. r \<in> set (m s))"
  by (cases "m s") (auto simp: regex_test_def)

text \<open>
  What \<open>presentTensePattern\<close> accepts: the type and the scope may each be missing, the
  separator \<open>: \<close> may not.
\<close>

lemma presentTense_iff:
  "regex_test presentTensePattern m \<longleftrightarrow>
     (\<exists>t sc c rest. m = t @ sc @ '': '' @ c # rest
        \<and> (t = [] \<or> t \<in> set commit_types)
        \<and> (sc = [] \<or> (\<exists>s. s \<noteq> [] \<and> list_all not_rparen s \<and> sc = ''('' @ s @ '')''))
        \<and> lower_az c)"
  (is "?L = ?R")
proof
  assume ?L
  then obtain r where "r \<in> set (presentTensePattern m)"
    unfolding regex_test_iff by blast
  then obtain r1 r2 r3 where 1: "r1 \<in> set (opt type_group m)"
    and 2: "r2 \<in> set (opt scope_group r1)"
    and 3: "r3 \<in> set (lit '': '' r2)" and 4: "r \<in> set (one_of lower_az r3)"
    unfolding presentTensePattern_def set_seq by blast
  from 1 obtain t where t: "m = t @ r1" "t = [] \<or> t \<in> set commit_types"
    by (auto simp: set_opt set_type_group)
  from 2 obtain sc where sc: "r1 = sc @ r2"
    "sc = [] \<or> (\<exists>s. s \<noteq> [] \<and> list_all not_rparen s \<and> sc = ''('' @ s @ '')'')"
    unfolding set_opt set_scope_group by (metis append.assoc append_Nil)
  from 3 have r2: "r2 = '': '' @ r3" by (simp add: set_lit)
  from 4 obtain c where c: "lower_az c" "r3 = c # r" by (auto simp: set_one_of)
  from t sc r2 c have "m = t @ sc @ '': '' @ c # r" by simp
  with t sc c show ?R by blast
next
  assume ?R
  then obtain t sc c rest where m: "m = t @ sc @ '': '' @ c # rest"
    and t: "t = [] \<or> t \<in> set commit_types"
    and sc: "sc = [] \<or> (\<exists>s. s \<noteq> [] \<and> list_all not_rparen s \<and> sc = ''('' @ s @ '')'')"
    and c: "lower_az c" by blast
  from m t have 1: "(sc @ '': '' @ c # rest) \<in> set (opt type_group m)"
    by (auto simp: set_opt set_type_group)
  from sc have 2: "('': '' @ c # rest) \<in> set (opt scope_group (sc @ '': '' @ c # rest))"
    unfolding set_opt set_scope_group by auto
  have 3: "(c # rest) \<in> set (lit '': '' ('': '' @ c # rest))" by (simp add: set_lit)
  from c have 4: "rest \<in> set (one_of lower_az (c # rest))" by (simp add: set_one_of)
  from 1 2 3 4 have "rest \<in> set (presentTensePattern m)"
    unfolding presentTensePattern_def set_seq by blast
  then show ?L unfolding regex_test_iff by blast
qed

lemma presentTense_needs_colon:
  assumes "CHR '':'' \<notin> set m"
  shows "\<not> regex_test presentTensePattern m"
proof
  assume "regex_test presentTensePattern m"
  then obtain t sc c rest where "m = t @ sc @ '': '' @ c # rest"
    unfolding presentTense_iff by blast
  then have "CHR '':'' \<in> set m" by simp
  with assms show False by contradiction
qed

section \<open>Properties of the quality assessment\<close>

lemma check_points_bounds:
  "fst (check_conventional m) \<in> {0, 4}" "fst (check_length m) \<in> {0, 2}"
  "fst (check_descriptive m) \<in> {0, 2}" "fst (check_present_tense m) \<in> {0, 1}"
  "fst (check_trailing_period m) \<in> {0, 1}"
  by (simp_all add: check_conventional_def check_length_def check_descriptive_def
      check_present_tense_def check_trailing_period_def Let_def)

lemma score_range: "0 \<le> score (assessCommitQuality options m) \<and> score (assessCommitQuality options m) \<le> 10"
  using check_points_bounds [of m]
  by (auto simp add: assessCommitQuality_def quality_checks_def Let_def)

lemma score_is_sum:
  "score (assessCommitQuality options m) =
     fst (check_conventional m) + fst (check_length m) + fst (check_descriptive m)
       + fst (check_present_tense m) + fst (check_trailing_period m)"
  by (simp add: assessCommitQuality_def quality_checks_def Let_def)

lemma wellFormed_threshold:
  "isWellFormed (assessCommitQuality options m) =
     (number_or (minQualityScore options) 7 \<le> score (assessCommitQuality options m))"
  by (simp add: assessCommitQuality_def Let_def)

lemmas scoring_defs =
  assessCommitQuality_def quality_checks_def check_conventional_def check_length_def
  check_descriptive_def check_present_tense_def check_trailing_period_def Let_def
  regex_test_def conventionalPattern_def presentTensePattern_def seq_def opt_def alt_def
  lit_def type_group_def scope_group_def commit_types_def one_of_def dot_def not_rparen_def
  lower_az_def lower_letters_def upper_letters_def firstLine_of_def newline_def endsWith_def
  isGeneric_def genericMessages_def toLowerCase_def lower_char_def number_or_def

section \<open>Properties of the loop over the commits\<close>

lemma generate_old_or_nonempty:
  "generateCommitMessage c d fs old = old \<or> generateCommitMessage c d fs old \<noteq> []"
  by (simp add: generateCommitMessage_def split: provider_reply.splits)

lemma generate_changed_nonempty:
  "generateCommitMessage c d fs old \<noteq> old \<Longrightarrow> generateCommitMessage c d fs old \<noteq> []"
  using generate_old_or_nonempty [of c d fs old] by blast

lemma new_message_nonempty: "new_message_for options e i h = Some m \<Longrightarrow> m \<noteq> []"
  by (auto simp: new_message_for_def split: sum.splits if_splits dest: generate_changed_nonempty)

lemma messageMap_step:
  "messageMap (process_commit options e i h st) =
     (case new_message_for options e i h of
        None \<Rightarrow> messageMap st
      | Some m \<Rightarrow> AList.update h m (messageMap st))"
  by (simp add: process_commit_def new_message_for_def Let_def split: sum.splits)

lemma map_of_step_other:
  "h' \<noteq> h \<Longrightarrow> map_of (messageMap (process_commit options e i h st)) h' = map_of (messageMap st) h'"
  by (simp add: messageMap_step update_conv' split: option.splits)

lemma map_of_step_same:
  "map_of (messageMap (process_commit options e i h st)) h =
     (case new_message_for options e i h of
        None \<Rightarrow> map_of (messageMap st) h
      | Some m \<Rightarrow> Some m)"
  by (simp add: messageMap_step update_conv' split: option.splits)

lemma map_of_loop_other:
  "h' \<notin> set hs \<Longrightarrow>
     map_of (messageMap (process_commits options e i hs st)) h' = map_of (messageMap st) h'"
  by (induction hs arbitrary: i st) (auto simp: map_of_step_other)

lemma map_of_loop_at:
  "distinct hs \<Longrightarrow> k < length hs \<Longrightarrow>
     map_of (messageMap (process_commits options e i hs st)) (hs ! k) =
       (case new_message_for options e (i + k) (hs ! k) of
          None \<Rightarrow> map_of (messageMap st) (hs ! k)
        | Some m \<Rightarrow> Some m)"
proof (induction hs arbitrary: i st k)
  case Nil
  then show ?case by simp
next
  case (Cons h hs)
  show ?case
  proof (cases k)
    case 0
    with Cons.prems show ?thesis
      by (simp add: map_of_loop_other map_of_step_same split: option.splits)
  next
    case (Suc j)
    with Cons.prems have j: "j < length hs" and d: "distinct hs" and ne: "hs ! j \<noteq> h"
      by auto
    from Cons.IH [OF d j, of "Suc i" "process_commit options e i h st"] Suc ne
    show ?thesis by (simp add: map_of_step_other split: option.splits)
  qed
qed

lemma plan_entry_at:
  assumes "distinct commits" and "k < length commits"
  shows "plan_entry (git e)
           (messageMap (process_commits options e 0 commits initial_loop_state)) (commits ! k) =
         (case new_message_for options e k (commits ! k) of
            Some m \<Rightarrow> Inr m
          | None \<Rightarrow>
              (case execCommand (git e) (LogBody (commits ! k)) of
                 Inl err \<Rightarrow> Inl err | Inr out \<Rightarrow> Inr (trim out)))"
proof (cases "new_message_for options e k (commits ! k)")
  case None
  with map_of_loop_at [OF assms, of options e 0 initial_loop_state]
  show ?thesis by (simp add: plan_entry_def initial_loop_state_def)
next
  case (Some m)
  with map_of_loop_at [OF assms, of options e 0 initial_loop_state] new_message_nonempty [OF Some]
  show ?thesis by (simp add: plan_entry_def)
qed

lemma orderedMessages_Inr:
  "orderedMessages g mm hs = Inr ms \<Longrightarrow>
     length ms = length hs \<and> (\<forall>k<length hs. plan_entry g mm (hs ! k) = Inr (ms ! k))"
proof (induction hs arbitrary: ms)
  case Nil
  then show ?case by simp
next
  case (Cons h hs)
  from Cons.prems obtain m ms' where m: "plan_entry g mm h = Inr m"
    and ms': "orderedMessages g mm hs = Inr ms'" and ms: "ms = m # ms'"
    by (auto split: sum.splits)
  from Cons.IH [OF ms'] m ms show ?case
    by (auto simp: nth_Cons split: nat.splits)
qed

lemma orderedMessages_Inl:
  "orderedMessages g mm hs = Inl err \<Longrightarrow> \<exists>h \<in> set hs. plan_entry g mm h = Inl err"
  by (induction hs) (auto split: sum.splits)

lemma orderedMessages_all_ok:
  "(\<And>h. h \<in> set hs \<Longrightarrow> plan_entry g mm h = Inr (f h)) \<Longrightarrow>
     orderedMessages g mm hs = Inr (map f hs)"
  by (induction hs) auto


section \<open>Properties of a run\<close>

lemma msg_filter_planned:
  "c < length messages \<Longrightarrow> messages ! c \<noteq> [] \<Longrightarrow>
     msg_filter messages c old = (messages ! c, Suc c)"
  by (simp add: msg_filter_def)

lemma msg_filter_beyond_plan:
  "length messages \<le> c \<Longrightarrow> msg_filter messages c old = (trim old, Suc c)"
  by (simp add: msg_filter_def)

text \<open>
  When the message list covers the commits that the rewrite visits, every visited commit
  receives the list's entry at its own position.
\<close>

lemma filter_branch_aligned:
  "c + length h \<le> length messages \<Longrightarrow> [] \<notin> set messages \<Longrightarrow>
     fst (filter_branch messages c h) = zip (map fst h) (take (length h) (drop c messages))"
proof (induction h arbitrary: c)
  case Nil
  then show ?case by simp
next
  case (Cons a h)
  obtain hh m where a: "a = (hh, m)" by (cases a)
  from Cons.prems have c: "c < length messages" by simp
  with Cons.prems(2) have ne: "messages ! c \<noteq> []" by (metis nth_mem)
  from Cons.prems have "Suc c + length h \<le> length messages" by simp
  from Cons.IH [OF this Cons.prems(2)]
  have ih: "fst (filter_branch messages (Suc c) h)
              = zip (map fst h) (take (length h) (drop (Suc c) messages))" .
  from c have "drop c messages = messages ! c # drop (Suc c) messages"
    by (simp add: Cons_nth_drop_Suc)
  with ih a show ?case
    by (auto simp: msg_filter_planned [OF c ne] split: prod.splits)
qed

text \<open>Whether the rewrite succeeds or fails, \<open>rewriteHistory\<close> leaves none of the three files.\<close>

lemma rewriteHistory_cleans_up:
  "mappingFile (snd (rewriteHistory e w)) = None
   \<and> counterFile (snd (rewriteHistory e w)) = None
   \<and> \<not> filterScript (snd (rewriteHistory e w))"
  by (auto simp: rewriteHistory_def cleanup_def Let_def
      split: sum.splits option.splits prod.splits)

lemma events_step_asked:
  "Asked q \<in> set (events (process_commit options e i h st)) \<longleftrightarrow> Asked q \<in> set (events st)"
  by (auto simp: process_commit_def Let_def split: sum.splits)

lemma events_loop_asked:
  "Asked q \<in> set (events (process_commits options e i hs st)) \<longleftrightarrow> Asked q \<in> set (events st)"
  by (induction hs arbitrary: i st) (simp_all add: events_step_asked)

lemma set_alist_update: "set (AList.update k v al) \<subseteq> insert (k, v) (set al)"
  by (induction al) auto

lemma events_step_mono: "set (events st) \<subseteq> set (events (process_commit options e i h st))"
  by (auto simp: process_commit_def Let_def split: sum.splits)

lemma improved_step:
  assumes "\<And>h m. (h, m) \<in> set (messageMap st) \<Longrightarrow> Improved h m \<in> set (events st)"
    and "(h', m') \<in> set (messageMap (process_commit options e i h st))"
  shows "Improved h' m' \<in> set (events (process_commit options e i h st))"
proof (cases "(h', m') \<in> set (messageMap st)")
  case True
  with assms(1) events_step_mono show ?thesis by blast
next
  case False
  with assms(2) set_alist_update [of h _ "messageMap st"]
  obtain m where "new_message_for options e i h = Some m" and "(h', m') = (h, m)"
    by (cases "new_message_for options e i h") (auto simp: messageMap_step)
  then show ?thesis
    by (auto simp: process_commit_def new_message_for_def Let_def split: sum.splits if_splits)
qed

lemma improved_loop:
  assumes "\<And>h m. (h, m) \<in> set (messageMap st) \<Longrightarrow> Improved h m \<in> set (events st)"
    and "(h', m') \<in> set (messageMap (process_commits options e i hs st))"
  shows "Improved h' m' \<in> set (events (process_commits options e i hs st))"
  using assms
proof (induction hs arbitrary: i st)
  case Nil
  then show ?case by simp
next
  case (Cons h hs)
  from Cons.prems(1) have "\<And>a b. (a, b) \<in> set (messageMap (process_commit options e i h st))
      \<Longrightarrow> Improved a b \<in> set (events (process_commit options e i h st))"
    by (rule improved_step)
  from Cons.IH [OF this] Cons.prems(2) show ?case by simp
qed

lemma improved_reported:
  "(h, m) \<in> set (messageMap (process_commits options e 0 commits initial_loop_state)) \<Longrightarrow>
     Improved h m \<in> set (events (process_commits options e 0 commits initial_loop_state))"
  by (rule improved_loop [of initial_loop_state]) (simp_all add: initial_loop_state_def)

lemma execCommand_Inl: "execCommand g c = Inl err \<Longrightarrow> git_failure g err"
  by (auto simp: execCommand_def git_failure_def split: option.splits)

lemma getCommits_Inl: "getCommits options g = Inl err \<Longrightarrow> git_failure g err"
  by (auto simp: getCommits_def Let_def split: sum.splits js_prop.splits if_splits
      dest: execCommand_Inl)

lemma check_repository_fails:
  "execCommand g RevParseGitDir = Inl err \<Longrightarrow> git_failure g NotAGitRepository"
  by (auto simp: execCommand_def git_failure_def split: option.splits)

text \<open>
  The shape of a run: it ends before the loop with nothing changed, or it reaches the
  loop with at most a backup branch added.
\<close>

lemma rewrite_shape:
  assumes early: "\<And>oc tr.
            oc = Exited \<or> oc = NoCommits \<or> (\<exists>err. oc = Thrown err \<and> git_failure (git e) err) \<Longrightarrow>
            Asked Apply \<notin> set tr \<Longrightarrow> (truthy (dryRun options) \<Longrightarrow> Asked Proceed \<notin> set tr) \<Longrightarrow>
            P \<lparr> outcome = oc, final = w, trace = tr \<rparr>"
    and planned: "\<And>commits w1 tr. getCommits options (git e) = Inr commits \<Longrightarrow> commits \<noteq> [] \<Longrightarrow>
            history w1 = history w \<Longrightarrow> mappingFile w1 = mappingFile w \<Longrightarrow>
            counterFile w1 = counterFile w \<Longrightarrow> filterScript w1 = filterScript w \<Longrightarrow>
            Asked Apply \<notin> set tr \<Longrightarrow>
            (truthy (dryRun options) \<Longrightarrow> w1 = w \<and> Asked Proceed \<notin> set tr) \<Longrightarrow>
            P (plan_and_apply options e commits w1 tr)"
  shows "P (rewrite options e w)"
  unfolding rewrite_def createBackupBranch_def Let_def
  by (auto split: sum.splits intro!: early planned
      dest: execCommand_Inl getCommits_Inl check_repository_fails)

lemma plan_and_apply_shape:
  assumes thrown: "\<And>err.
            orderedMessages (git e)
              (messageMap (process_commits options e 0 commits initial_loop_state)) commits
              = Inl err \<Longrightarrow>
            P \<lparr> outcome = Thrown err, final = w,
                trace = tr @ events (process_commits options e 0 commits initial_loop_state) \<rparr>"
    and kept: "\<And>ordered oc.
            orderedMessages (git e)
              (messageMap (process_commits options e 0 commits initial_loop_state)) commits
              = Inr ordered \<Longrightarrow>
            (messageMap (process_commits options e 0 commits initial_loop_state) = []
               \<and> oc = NothingToChange)
            \<or> (messageMap (process_commits options e 0 commits initial_loop_state) \<noteq> []
               \<and> truthy (dryRun options) \<and> oc = DryRunCompleted) \<Longrightarrow>
            P \<lparr> outcome = oc, final = w\<lparr>mappingFile := Some ordered\<rparr>,
                trace = tr @ events (process_commits options e 0 commits initial_loop_state) \<rparr>"
    and asked: "\<And>ordered oc w2.
            orderedMessages (git e)
              (messageMap (process_commits options e 0 commits initial_loop_state)) commits
              = Inr ordered \<Longrightarrow>
            messageMap (process_commits options e 0 commits initial_loop_state) \<noteq> [] \<Longrightarrow>
            \<not> truthy (dryRun options) \<Longrightarrow>
            (\<not> askConfirmation e Apply \<and> oc = Cancelled \<and> w2 = w\<lparr>mappingFile := Some ordered\<rparr>)
            \<or> (askConfirmation e Apply
               \<and> (\<exists>r. rewriteHistory e (w\<lparr>mappingFile := Some ordered\<rparr>) = (r, w2)
                     \<and> oc = (case r of Inl err \<Rightarrow> Thrown err | Inr u \<Rightarrow> Rewritten))) \<Longrightarrow>
            P \<lparr> outcome = oc, final = w2,
                trace = tr @ events (process_commits options e 0 commits initial_loop_state)
                          @ [Asked Apply] \<rparr>"
  shows "P (plan_and_apply options e commits w tr)"
  unfolding plan_and_apply_def Let_def
  by (auto split: sum.splits prod.splits intro!: thrown kept asked)

lemma loop_asks_nothing:
  "Asked q \<notin> set (events (process_commits options e 0 commits initial_loop_state))"
  by (simp add: events_loop_asked initial_loop_state_def)

lemma loop_empty_map_nonempty:
  "messageMap (process_commits options e 0 commits initial_loop_state) \<noteq> [] \<Longrightarrow> commits \<noteq> []"
  by (auto simp: initial_loop_state_def)

lemma dry_run_reports:
  assumes "getCommits options (git e) = Inr commits"
    and "(h, m) \<in> set (messageMap (process_commits options e 0 commits initial_loop_state))"
  shows "outcome (rewrite options e w) = DryRunCompleted \<longrightarrow>
         Improved h m \<in> set (trace (rewrite options e w))"
proof (rule rewrite_shape [where options = options and e = e and w = w])
  fix oc tr
  assume "oc = Exited \<or> oc = NoCommits \<or> (\<exists>err. oc = Thrown err \<and> git_failure (git e) err)"
  then show "outcome \<lparr> outcome = oc, final = w, trace = tr \<rparr> = DryRunCompleted \<longrightarrow>
         Improved h m \<in> set (trace \<lparr> outcome = oc, final = w, trace = tr \<rparr>)"
    by auto
next
  fix cs w1 tr
  assume "getCommits options (git e) = Inr cs"
  with assms(1) have cs: "cs = commits" by simp
  note imp = improved_reported [OF assms(2)]
  show "outcome (plan_and_apply options e cs w1 tr) = DryRunCompleted \<longrightarrow>
         Improved h m \<in> set (trace (plan_and_apply options e cs w1 tr))"
    unfolding cs
    by (rule plan_and_apply_shape
          [where P = "\<lambda>r. outcome r = DryRunCompleted \<longrightarrow> Improved h m \<in> set (trace r)"])
       (simp_all add: imp)
qed

lemma dry_run_completes:
  assumes "truthy (dryRun options)"
    and "git e RevParseGitDir \<noteq> None" and "git e RevParseAbbrevRef \<noteq> None"
    and "git e StatusPorcelain = Some []"
    and "getCommits options (git e) = Inr commits"
    and "orderedMessages (git e)
           (messageMap (process_commits options e 0 commits initial_loop_state)) commits = Inr plan"
    and "messageMap (process_commits options e 0 commits initial_loop_state) \<noteq> []"
  shows "outcome (rewrite options e w) = DryRunCompleted
       \<and> mappingFile (final (rewrite options e w)) = Some plan"
proof -
  from assms(7) have "commits \<noteq> []" by (rule loop_empty_map_nonempty)
  with assms have "rewrite options e w = plan_and_apply options e commits w []"
    by (auto simp: rewrite_def execCommand_def Let_def)
  with assms show ?thesis by (simp add: plan_and_apply_def Let_def)
qed


lemma dry_run_frame:
  assumes "truthy (dryRun options)"
  shows "history (final (rewrite options e w)) = history w
       \<and> branches (final (rewrite options e w)) = branches w
       \<and> Asked Proceed \<notin> set (trace (rewrite options e w))
       \<and> Asked Apply \<notin> set (trace (rewrite options e w))
       \<and> outcome (rewrite options e w) \<noteq> Rewritten
       \<and> outcome (rewrite options e w) \<noteq> Cancelled"
proof (rule rewrite_shape [where options = options and e = e and w = w and
        P = "\<lambda>r. history (final r) = history w \<and> branches (final r) = branches w
               \<and> Asked Proceed \<notin> set (trace r) \<and> Asked Apply \<notin> set (trace r)
               \<and> outcome r \<noteq> Rewritten \<and> outcome r \<noteq> Cancelled"])
  fix oc tr
  assume "oc = Exited \<or> oc = NoCommits \<or> (\<exists>err. oc = Thrown err \<and> git_failure (git e) err)"
    and "Asked Apply \<notin> set tr" and "truthy (dryRun options) \<Longrightarrow> Asked Proceed \<notin> set tr"
  with assms show "history (final \<lparr> outcome = oc, final = w, trace = tr \<rparr>) = history w
       \<and> branches (final \<lparr> outcome = oc, final = w, trace = tr \<rparr>) = branches w
       \<and> Asked Proceed \<notin> set (trace \<lparr> outcome = oc, final = w, trace = tr \<rparr>)
       \<and> Asked Apply \<notin> set (trace \<lparr> outcome = oc, final = w, trace = tr \<rparr>)
       \<and> outcome \<lparr> outcome = oc, final = w, trace = tr \<rparr> \<noteq> Rewritten
       \<and> outcome \<lparr> outcome = oc, final = w, trace = tr \<rparr> \<noteq> Cancelled"
    by auto
next
  fix commits w1 tr
  assume a: "Asked Apply \<notin> set tr"
    and "truthy (dryRun options) \<Longrightarrow> w1 = w \<and> Asked Proceed \<notin> set tr"
  with assms have w1: "w1 = w" and p: "Asked Proceed \<notin> set tr" by simp_all
  show "history (final (plan_and_apply options e commits w1 tr)) = history w
       \<and> branches (final (plan_and_apply options e commits w1 tr)) = branches w
       \<and> Asked Proceed \<notin> set (trace (plan_and_apply options e commits w1 tr))
       \<and> Asked Apply \<notin> set (trace (plan_and_apply options e commits w1 tr))
       \<and> outcome (plan_and_apply options e commits w1 tr) \<noteq> Rewritten
       \<and> outcome (plan_and_apply options e commits w1 tr) \<noteq> Cancelled"
    unfolding w1
    by (rule plan_and_apply_shape
          [where P = "\<lambda>r. history (final r) = history w \<and> branches (final r) = branches w
               \<and> Asked Proceed \<notin> set (trace r) \<and> Asked Apply \<notin> set (trace r)
               \<and> outcome r \<noteq> Rewritten \<and> outcome r \<noteq> Cancelled"])
       (use assms a p in \<open>auto simp: loop_asks_nothing\<close>)
qed

lemma getCommitInfo_fails:
  assumes "git e (LogSubject h) = None \<or> git e (DiffTreeNames h) = None
         \<or> git e (if i = 0 then DiffTreeRoot h else DiffTreeParent h) = None"
  shows "\<exists>err. getCommitInfo (git e) h i = Inl err"
  using assms
  by (cases "i = 0") (auto simp: getCommitInfo_def execCommand_def split: option.splits)

lemma process_commit_absorbs:
  "getCommitInfo (git e) h i = Inl err \<Longrightarrow>
     process_commit options e i h st = st\<lparr>events := events st @ [Failed h err]\<rparr>"
  by (simp add: process_commit_def)

lemma not_a_repository:
  "git e RevParseGitDir = None \<Longrightarrow>
     rewrite options e w = \<lparr> outcome = Thrown NotAGitRepository, final = w, trace = [] \<rparr>"
  by (simp add: rewrite_def execCommand_def)

lemma enumeration_fails_after_status:
  assumes "git e RevParseGitDir \<noteq> None" and "git e RevParseAbbrevRef \<noteq> None"
    and "git e StatusPorcelain = Some status"
    and "status = [] \<or> askConfirmation e ContinueAnyway"
    and "git e RevListReverse = None"
  shows "rewrite options e w =
           \<lparr> outcome = Thrown (CommandFailed RevListReverse), final = w,
             trace = (if status \<noteq> [] then [Asked ContinueAnyway] else []) \<rparr>"
  using assms by (auto simp: rewrite_def getCommits_def execCommand_def Let_def)

lemma full_message_read_fails:
  assumes "orderedMessages (git e)
             (messageMap (process_commits options e 0 commits initial_loop_state)) commits = Inl err"
  shows "outcome (plan_and_apply options e commits w tr) = Thrown err
       \<and> final (plan_and_apply options e commits w tr) = w"
  using assms by (simp add: plan_and_apply_def Let_def)

lemma failed_reply_keeps_old:
  "provider_failed (create \<lparr> prompt_oldMessage = old, prompt_files = join_with [newline] fs,
                            prompt_diff = take 8000 d \<rparr>) \<Longrightarrow>
     generateCommitMessage create d fs old = old"
  by (simp add: generateCommitMessage_def provider_failed_def split: provider_reply.splits)

lemma no_new_message:
  assumes "\<And>i r. provider_failed (provider e i r)"
  shows "new_message_for options e i h = None"
  using assms by (simp add: new_message_for_def failed_reply_keeps_old split: sum.splits)

lemma improvedCount_step:
  "improvedCount (process_commit options e i h st) =
     (case new_message_for options e i h of
        None \<Rightarrow> improvedCount st | Some m \<Rightarrow> improvedCount st + 1)"
  by (simp add: process_commit_def new_message_for_def Let_def split: sum.splits)

lemma loop_without_new_messages:
  assumes "\<And>i h. new_message_for options e i h = None"
  shows "messageMap (process_commits options e i hs st) = messageMap st
       \<and> improvedCount (process_commits options e i hs st) = improvedCount st"
  using assms
  by (induction hs arbitrary: i st) (simp_all add: messageMap_step improvedCount_step)

lemma plan_entry_Inl: "plan_entry g mm h = Inl err \<Longrightarrow> git_failure g err"
  by (auto simp: plan_entry_def split: option.splits if_splits sum.splits dest: execCommand_Inl)

lemma orderedMessages_Inl_git: "orderedMessages g mm hs = Inl err \<Longrightarrow> git_failure g err"
  using orderedMessages_Inl plan_entry_Inl by blast

lemma plan_entry_unmapped:
  "g (LogBody h) = Some full \<Longrightarrow> plan_entry g [] h = Inr (trim full)"
  by (simp add: plan_entry_def execCommand_def)

lemma provider_down_run:
  assumes "\<And>i r. provider_failed (provider e i r)"
  shows "history (final (rewrite options e w)) = history w
       \<and> outcome (rewrite options e w) \<noteq> Rewritten
       \<and> outcome (rewrite options e w) \<noteq> DryRunCompleted
       \<and> outcome (rewrite options e w) \<noteq> Cancelled
       \<and> (\<forall>err. outcome (rewrite options e w) = Thrown err \<longrightarrow> git_failure (git e) err)"
proof (rule rewrite_shape [where options = options and e = e and w = w and
        P = "\<lambda>r. history (final r) = history w \<and> outcome r \<noteq> Rewritten
               \<and> outcome r \<noteq> DryRunCompleted \<and> outcome r \<noteq> Cancelled
               \<and> (\<forall>err. outcome r = Thrown err \<longrightarrow> git_failure (git e) err)"])
  fix oc tr
  assume "oc = Exited \<or> oc = NoCommits \<or> (\<exists>err. oc = Thrown err \<and> git_failure (git e) err)"
  then show "history (final \<lparr> outcome = oc, final = w, trace = tr \<rparr>) = history w
       \<and> outcome \<lparr> outcome = oc, final = w, trace = tr \<rparr> \<noteq> Rewritten
       \<and> outcome \<lparr> outcome = oc, final = w, trace = tr \<rparr> \<noteq> DryRunCompleted
       \<and> outcome \<lparr> outcome = oc, final = w, trace = tr \<rparr> \<noteq> Cancelled
       \<and> (\<forall>err. outcome \<lparr> outcome = oc, final = w, trace = tr \<rparr> = Thrown err
             \<longrightarrow> git_failure (git e) err)"
    by auto
next
  fix commits and w1 :: world and tr
  assume h: "history w1 = history w"
  have mm: "messageMap (process_commits options e 0 commits initial_loop_state) = []"
    using loop_without_new_messages [of options e 0 commits initial_loop_state]
      no_new_message [OF assms]
    by (simp add: initial_loop_state_def)
  show "history (final (plan_and_apply options e commits w1 tr)) = history w
       \<and> outcome (plan_and_apply options e commits w1 tr) \<noteq> Rewritten
       \<and> outcome (plan_and_apply options e commits w1 tr) \<noteq> DryRunCompleted
       \<and> outcome (plan_and_apply options e commits w1 tr) \<noteq> Cancelled
       \<and> (\<forall>err. outcome (plan_and_apply options e commits w1 tr) = Thrown err
             \<longrightarrow> git_failure (git e) err)"
    by (rule plan_and_apply_shape
          [where P = "\<lambda>r. history (final r) = history w \<and> outcome r \<noteq> Rewritten
               \<and> outcome r \<noteq> DryRunCompleted \<and> outcome r \<noteq> Cancelled
               \<and> (\<forall>err. outcome r = Thrown err \<longrightarrow> git_failure (git e) err)"])
       (use h mm in \<open>auto dest: orderedMessages_Inl_git\<close>)
qed

lemma execCommand_other:
  "c \<noteq> LogBody h' \<Longrightarrow> execCommand (g(LogBody h' := x)) c = execCommand g c"
  by (simp add: execCommand_def)

lemma getCommitInfo_ignores_body:
  "getCommitInfo (g(LogBody h' := x)) h i = getCommitInfo g h i"
  by (cases "i = 0") (simp_all add: getCommitInfo_def execCommand_other split: sum.splits)

lemma process_commit_ignores_body:
  "process_commit options (e\<lparr>git := (git e)(LogBody h' := x)\<rparr>) i h st
     = process_commit options e i h st"
  by (simp add: process_commit_def getCommitInfo_ignores_body Let_def split: sum.splits)

lemma process_commits_ignores_body:
  "process_commits options (e\<lparr>git := (git e)(LogBody h' := x)\<rparr>) i hs st
     = process_commits options e i hs st"
  by (induction hs arbitrary: i st) (simp_all add: process_commit_ignores_body)

lemma getCommitInfo_message:
  "getCommitInfo g h i = Inr commitInfo \<Longrightarrow> g (LogSubject h) = Some subject \<Longrightarrow>
     message commitInfo = trim subject"
  by (auto simp: getCommitInfo_def execCommand_def split: option.splits)

lemma rewriteHistory_Inl:
  "rewriteHistory e w = (Inl err, w2) \<Longrightarrow> mappingFile w \<noteq> None \<Longrightarrow> git_failure (git e) err"
  by (auto simp: rewriteHistory_def Let_def split: sum.splits option.splits prod.splits
      dest: execCommand_Inl)

lemma rewriteHistory_Inl_command:
  "rewriteHistory e w = (Inl err, w2) \<Longrightarrow> err = CommandFailed FilterBranch"
  by (auto simp: rewriteHistory_def execCommand_def Let_def
      split: sum.splits option.splits prod.splits)

lemma applied_thrown:
  assumes "rewriteHistory e (w\<lparr>mappingFile := Some ordered\<rparr>) = (r, w2)"
    and "Thrown err = (case r of Inl x \<Rightarrow> Thrown x | Inr u \<Rightarrow> Rewritten)"
  shows "git_failure (git e) err"
  using assms by (cases r) (auto dest: rewriteHistory_Inl)

text \<open>Whatever the provider answers, a run throws only for a failed git command.\<close>

lemma thrown_only_by_git:
  "\<forall>err. outcome (rewrite options e w) = Thrown err \<longrightarrow> git_failure (git e) err"
proof (rule rewrite_shape [where options = options and e = e and w = w and
        P = "\<lambda>r. \<forall>err. outcome r = Thrown err \<longrightarrow> git_failure (git e) err"])
  fix oc tr
  assume "oc = Exited \<or> oc = NoCommits \<or> (\<exists>err. oc = Thrown err \<and> git_failure (git e) err)"
  then show "\<forall>err. outcome \<lparr> outcome = oc, final = w, trace = tr \<rparr> = Thrown err
               \<longrightarrow> git_failure (git e) err"
    by auto
next
  fix commits and w1 :: world and tr
  show "\<forall>err. outcome (plan_and_apply options e commits w1 tr) = Thrown err
               \<longrightarrow> git_failure (git e) err"
    by (rule plan_and_apply_shape
          [where P = "\<lambda>r. \<forall>err. outcome r = Thrown err \<longrightarrow> git_failure (git e) err"])
       (auto dest: orderedMessages_Inl_git applied_thrown)
qed

lemma plan_entry_readable:
  "g (LogBody h) = Some full \<Longrightarrow>
     plan_entry g mm h =
       Inr (case map_of mm h of
              Some m \<Rightarrow> if m \<noteq> [] then m else trim full
            | None \<Rightarrow> trim full)"
  by (simp add: plan_entry_def execCommand_def split: option.splits)

lemma orderedMessages_readable:
  assumes "\<And>h. h \<in> set hs \<Longrightarrow> g (LogBody h) = Some (body h)"
  shows "orderedMessages g mm hs =
           Inr (map (\<lambda>h. case map_of mm h of
                            Some m \<Rightarrow> if m \<noteq> [] then m else trim (body h)
                          | None \<Rightarrow> trim (body h)) hs)"
  by (rule orderedMessages_all_ok) (simp add: plan_entry_readable assms)

lemma failed_call_stores_nothing:
  assumes "\<And>r. provider_failed (provider e i r)"
  shows "new_message_for options e i h = None"
  using assms by (simp add: new_message_for_def failed_reply_keeps_old split: sum.splits)

lemma new_message_for_own_call:
  assumes "\<And>r. p i r = provider e i r"
  shows "new_message_for options (e\<lparr>provider := p\<rparr>) i h = new_message_for options e i h"
proof -
  from assms have "p i = provider e i" by (rule ext)
  then show ?thesis by (simp add: new_message_for_def split: sum.splits)
qed

lemma map_of_loop_initial:
  "distinct commits \<Longrightarrow> k < length commits \<Longrightarrow>
     map_of (messageMap (process_commits options e 0 commits initial_loop_state)) (commits ! k)
       = new_message_for options e k (commits ! k)"
  using map_of_loop_at [of commits k options e 0 initial_loop_state]
  by (simp add: initial_loop_state_def split: option.splits)


lemma plan_entry_lookup:
  "map_of mm h = map_of mm' h \<Longrightarrow> plan_entry g mm h = plan_entry g mm' h"
  by (simp add: plan_entry_def)

lemma plan_entry_Inl_command:
  "plan_entry g mm h = Inl err \<Longrightarrow> err = CommandFailed (LogBody h) \<and> g (LogBody h) = None"
  by (auto simp: plan_entry_def execCommand_def split: option.splits if_splits)

lemma plan_entry_unreadable:
  "map_of mm h = None \<Longrightarrow> g (LogBody h) = None \<Longrightarrow>
     plan_entry g mm h = Inl (CommandFailed (LogBody h))"
  by (simp add: plan_entry_def execCommand_def)

text \<open>
  A commit without a new message whose full message cannot be read makes the ordered
  list fail, at the first commit of that kind.
\<close>

lemma unread_body_fails_the_list:
  "h \<in> set hs \<Longrightarrow> map_of mm h = None \<Longrightarrow> g (LogBody h) = None \<Longrightarrow>
     \<exists>h' \<in> set hs. g (LogBody h') = None
        \<and> orderedMessages g mm hs = Inl (CommandFailed (LogBody h'))"
proof (induction hs)
  case Nil
  then show ?case by simp
next
  case (Cons a hs)
  show ?case
  proof (cases "plan_entry g mm a")
    case (Inl err)
    with plan_entry_Inl_command [OF Inl] show ?thesis by auto
  next
    case (Inr m)
    with Cons.prems plan_entry_unreadable [of mm h g] have "h \<noteq> a" by auto
    with Cons.prems have "h \<in> set hs" by simp
    from Cons.IH [OF this Cons.prems(2,3)] Inr show ?thesis by auto
  qed
qed

lemma unread_body_stops_plan:
  assumes "h \<in> set commits"
    and "map_of (messageMap (process_commits options e 0 commits initial_loop_state)) h = None"
    and "git e (LogBody h) = None"
  shows "(\<exists>h' \<in> set commits. git e (LogBody h') = None
            \<and> outcome (plan_and_apply options e commits w tr) = Thrown (CommandFailed (LogBody h')))
       \<and> final (plan_and_apply options e commits w tr) = w"
proof -
  from unread_body_fails_the_list [where g = "git e", OF assms]
  obtain h' where h': "h' \<in> set commits" "git e (LogBody h') = None"
    and om: "orderedMessages (git e)
               (messageMap (process_commits options e 0 commits initial_loop_state)) commits
             = Inl (CommandFailed (LogBody h'))"
    by blast
  from full_message_read_fails [OF om, of w tr] h' show ?thesis by blast
qed

lemma unread_body_is_fatal:
  assumes "getCommits options (git e) = Inr commits" and "h \<in> set commits"
    and "map_of (messageMap (process_commits options e 0 commits initial_loop_state)) h = None"
    and "git e (LogBody h) = None"
  shows "outcome (rewrite options e w) \<noteq> NothingToChange
       \<and> outcome (rewrite options e w) \<noteq> DryRunCompleted
       \<and> outcome (rewrite options e w) \<noteq> Cancelled
       \<and> outcome (rewrite options e w) \<noteq> Rewritten
       \<and> history (final (rewrite options e w)) = history w
       \<and> mappingFile (final (rewrite options e w)) = mappingFile w"
proof (rule rewrite_shape [where options = options and e = e and w = w and
        P = "\<lambda>r. outcome r \<noteq> NothingToChange \<and> outcome r \<noteq> DryRunCompleted
               \<and> outcome r \<noteq> Cancelled \<and> outcome r \<noteq> Rewritten
               \<and> history (final r) = history w \<and> mappingFile (final r) = mappingFile w"])
  fix oc tr
  assume "oc = Exited \<or> oc = NoCommits \<or> (\<exists>err. oc = Thrown err \<and> git_failure (git e) err)"
  then show "outcome \<lparr> outcome = oc, final = w, trace = tr \<rparr> \<noteq> NothingToChange
       \<and> outcome \<lparr> outcome = oc, final = w, trace = tr \<rparr> \<noteq> DryRunCompleted
       \<and> outcome \<lparr> outcome = oc, final = w, trace = tr \<rparr> \<noteq> Cancelled
       \<and> outcome \<lparr> outcome = oc, final = w, trace = tr \<rparr> \<noteq> Rewritten
       \<and> history (final \<lparr> outcome = oc, final = w, trace = tr \<rparr>) = history w
       \<and> mappingFile (final \<lparr> outcome = oc, final = w, trace = tr \<rparr>) = mappingFile w"
    by auto
next
  fix cs and w1 :: world and tr
  assume "getCommits options (git e) = Inr cs"
    and hw: "history w1 = history w" and mw: "mappingFile w1 = mappingFile w"
  with assms(1) have cs: "cs = commits" by simp
  from unread_body_stops_plan [OF assms(2,3,4), of w1 tr] hw mw
  show "outcome (plan_and_apply options e cs w1 tr) \<noteq> NothingToChange
       \<and> outcome (plan_and_apply options e cs w1 tr) \<noteq> DryRunCompleted
       \<and> outcome (plan_and_apply options e cs w1 tr) \<noteq> Cancelled
       \<and> outcome (plan_and_apply options e cs w1 tr) \<noteq> Rewritten
       \<and> history (final (plan_and_apply options e cs w1 tr)) = history w
       \<and> mappingFile (final (plan_and_apply options e cs w1 tr)) = mappingFile w"
    unfolding cs by auto
qed

section \<open>Example runs\<close>

lemma run_limited:
  "rewrite (constructor_options (no_options\<lparr>maxCommits := Defined 2\<rparr>))
        (yes_env three_commits) (world_of three_commits)
     = \<lparr> outcome = Rewritten,
         final = \<lparr> history = [(''a1'', ''feat: add parser''), (''b2'', ''feat: add cli''),
                              (''c3'', ''wip'')],
                   branches = [''backup-main-1700000000000''],
                   mappingFile = None, counterFile = None, filterScript = False \<rparr>,
         trace = [Asked Proceed, Improved ''b2'' ''feat: add parser'',
                  Improved ''c3'' ''feat: add cli'', Asked Apply] \<rparr>"
  by code_simp

lemma loop_limited:
  "messageMap (process_commits (constructor_options (no_options\<lparr>maxCommits := Defined 2\<rparr>))
                   (yes_env three_commits) 0 [''b2'', ''c3''] initial_loop_state)
     = [(''b2'', ''feat: add parser''), (''c3'', ''feat: add cli'')]"
  by code_simp

lemma enumerate_limited:
  "getCommits (constructor_options (no_options\<lparr>maxCommits := Defined 2\<rparr>)) (git_of three_commits)
     = Inr [''b2'', ''c3'']"
  by code_simp

lemma run_dry:
  "rewrite (constructor_options (no_options\<lparr>dryRun := Defined True\<rparr>))
     (yes_env three_commits) (world_of three_commits)
   = \<lparr> outcome = DryRunCompleted,
       final = \<lparr> history = [(''a1'', ''initial'' @ [newline]), (''b2'', ''update'' @ [newline]),
                            (''c3'', ''wip'' @ [newline])],
                 branches = [],
                 mappingFile = Some [''chore: add readme'', ''feat: add parser'', ''feat: add cli''],
                 counterFile = None, filterScript = False \<rparr>,
       trace = [Improved ''a1'' ''chore: add readme'', Improved ''b2'' ''feat: add parser'',
                Improved ''c3'' ''feat: add cli''] \<rparr>"
  by code_simp

lemma run_declined:
  "rewrite (constructor_options no_options)
     ((yes_env three_commits)\<lparr>answer := (\<lambda>q. if q = Apply then ''n'' else ''y'')\<rparr>)
     (world_of three_commits)
   = \<lparr> outcome = Cancelled,
       final = \<lparr> history = [(''a1'', ''initial'' @ [newline]), (''b2'', ''update'' @ [newline]),
                            (''c3'', ''wip'' @ [newline])],
                 branches = [''backup-main-1700000000000''],
                 mappingFile = Some [''chore: add readme'', ''feat: add parser'', ''feat: add cli''],
                 counterFile = None, filterScript = False \<rparr>,
       trace = [Asked Proceed, Improved ''a1'' ''chore: add readme'',
                Improved ''b2'' ''feat: add parser'', Improved ''c3'' ''feat: add cli'',
                Asked Apply] \<rparr>"
  by code_simp

lemma run_provider_down:
  "rewrite (constructor_options no_options)
     ((yes_env three_commits)\<lparr>provider := failing_provider\<rparr>) (world_of three_commits)
   = \<lparr> outcome = NothingToChange,
       final = \<lparr> history = [(''a1'', ''initial'' @ [newline]), (''b2'', ''update'' @ [newline]),
                            (''c3'', ''wip'' @ [newline])],
                 branches = [''backup-main-1700000000000''],
                 mappingFile = Some [''initial'', ''update'', ''wip''],
                 counterFile = None, filterScript = False \<rparr>,
       trace = [Asked Proceed, Kept ''a1'', Kept ''b2'', Kept ''c3''] \<rparr>"
  by code_simp

lemma run_full:
  "rewrite (constructor_options no_options) (yes_env three_commits) (world_of three_commits)
   = \<lparr> outcome = Rewritten,
       final = \<lparr> history = [(''a1'', ''chore: add readme''), (''b2'', ''feat: add parser''),
                            (''c3'', ''feat: add cli'')],
                 branches = [''backup-main-1700000000000''],
                 mappingFile = None, counterFile = None, filterScript = False \<rparr>,
       trace = [Asked Proceed, Improved ''a1'' ''chore: add readme'',
                Improved ''b2'' ''feat: add parser'', Improved ''c3'' ''feat: add cli'',
                Asked Apply] \<rparr>"
  by code_simp


lemma run_diff_unreadable:
  "rewrite (constructor_options no_options)
     ((yes_env three_commits)\<lparr>git := (git_of three_commits)(DiffTreeParent ''b2'' := None)\<rparr>)
     (world_of three_commits)
   = \<lparr> outcome = Rewritten,
       final = \<lparr> history = [(''a1'', ''chore: add readme''), (''b2'', ''update''),
                            (''c3'', ''feat: add cli'')],
                 branches = [''backup-main-1700000000000''],
                 mappingFile = None, counterFile = None, filterScript = False \<rparr>,
       trace = [Asked Proceed, Improved ''a1'' ''chore: add readme'',
                Failed ''b2'' (CommandFailed (DiffTreeParent ''b2'')),
                Improved ''c3'' ''feat: add cli'', Asked Apply] \<rparr>"
  by code_simp

lemma run_provider_down_no_list:
  "outcome (rewrite (constructor_options no_options)
      ((yes_env three_commits)\<lparr>git := (git_of three_commits)(RevListReverse := None),
                                  provider := failing_provider\<rparr>)
      (world_of three_commits))
   = Thrown (CommandFailed RevListReverse)"
  by code_simp

section \<open>The statements of the specification\<close>

text \<open>
  C3. For every msg the score of \<open>assessCommitQuality\<close> lies between 0 and 10, and
  for every configured threshold between 1 and 10 the flag \<open>isWellFormed\<close> says exactly
  that the score reaches the threshold.
\<close>

theorem score_in_range_and_threshold:
  assumes "1 \<le> t" and "t \<le> 10" and "minQualityScore options = Defined t"
  shows "0 \<le> score (assessCommitQuality options msg)
       \<and> score (assessCommitQuality options msg) \<le> 10
       \<and> isWellFormed (assessCommitQuality options msg)
           = (t \<le> score (assessCommitQuality options msg))"
proof -
  from assms have "number_or (minQualityScore options) 7 = t"
    by (simp add: number_or_def)
  then show ?thesis
    using score_range [of options msg] by (simp add: wellFormed_threshold)
qed

theorem score_in_range_and_threshold_witness:
  "(1::int) \<le> 8 \<and> (8::int) \<le> 10
   \<and> minQualityScore (no_options\<lparr>minQualityScore := Defined 8\<rparr>) = Defined 8
   \<and> score (assessCommitQuality (no_options\<lparr>minQualityScore := Defined 8\<rparr>)
        ''feat(auth): add JWT refresh handling'') = 10
   \<and> isWellFormed (assessCommitQuality (no_options\<lparr>minQualityScore := Defined 8\<rparr>)
        ''feat(auth): add JWT refresh handling'')
   \<and> score (assessCommitQuality (no_options\<lparr>minQualityScore := Defined 8\<rparr>)
        ''Added the new login page.'') = 4
   \<and> \<not> isWellFormed (assessCommitQuality (no_options\<lparr>minQualityScore := Defined 8\<rparr>)
        ''Added the new login page.'')"
proof -
  have s1: "score (assessCommitQuality (no_options\<lparr>minQualityScore := Defined 8\<rparr>)
              ''feat(auth): add JWT refresh handling'') = 10"
    by (simp add: scoring_defs)
  have s2: "score (assessCommitQuality (no_options\<lparr>minQualityScore := Defined 8\<rparr>)
              ''Added the new login page.'') = 4"
    by (simp add: scoring_defs)
  have m: "minQualityScore (no_options\<lparr>minQualityScore := Defined 8\<rparr>) = Defined 8"
    by simp
  show ?thesis
    using score_in_range_and_threshold [OF _ _ m, of "''feat(auth): add JWT refresh handling''"]
      score_in_range_and_threshold [OF _ _ m, of "''Added the new login page.''"] s1 s2 m
    by simp
qed

text \<open>
  C4, as the code has it. The present-tense point and its tag are given exactly when the
  msg starts with an optional type keyword, then an optional non-empty parenthesised
  scope, then the separator \<open>: \<close>, which is not optional, and then a lower-case ASCII
  letter; the point is one of the five summands of the score; a msg that contains no
  colon never receives it, whatever its first letter.
\<close>

theorem present_tense_point_needs_separator:
  "check_present_tense msg =
     (if (\<exists>t sc c rest. msg = t @ sc @ '': '' @ c # rest
            \<and> (t = [] \<or> t \<in> set commit_types)
            \<and> (sc = [] \<or> (\<exists>s. s \<noteq> [] \<and> list_all not_rparen s \<and> sc = ''('' @ s @ '')''))
            \<and> lower_az c)
      then (1, [''uses present tense'']) else (0, []))
   \<and> score (assessCommitQuality options msg) =
       fst (check_conventional msg) + fst (check_length msg)
         + fst (check_descriptive msg) + fst (check_present_tense msg)
         + fst (check_trailing_period msg)
   \<and> (CHR '':'' \<notin> set msg \<longrightarrow> check_present_tense msg = (0, []))"
proof (intro conjI impI)
  show "check_present_tense msg =
     (if (\<exists>t sc c rest. msg = t @ sc @ '': '' @ c # rest
            \<and> (t = [] \<or> t \<in> set commit_types)
            \<and> (sc = [] \<or> (\<exists>s. s \<noteq> [] \<and> list_all not_rparen s \<and> sc = ''('' @ s @ '')''))
            \<and> lower_az c)
      then (1, [''uses present tense'']) else (0, []))"
    unfolding check_present_tense_def presentTense_iff by (rule refl)
next
  show "score (assessCommitQuality options msg) =
       fst (check_conventional msg) + fst (check_length msg)
         + fst (check_descriptive msg) + fst (check_present_tense msg)
         + fst (check_trailing_period msg)"
    by (rule score_is_sum)
next
  assume "CHR '':'' \<notin> set msg"
  then show "check_present_tense msg = (0, [])"
    by (simp add: check_present_tense_def presentTense_needs_colon)
qed

theorem present_tense_point_needs_separator_witness:
  "CHR '':'' \<notin> set ''add login page''
   \<and> check_present_tense ''add login page'' = (0, [])
   \<and> score (assessCommitQuality no_options ''add login page'') = 5"
proof -
  have c: "CHR '':'' \<notin> set ''add login page''" by simp
  have s: "fst (check_conventional ''add login page'') + fst (check_length ''add login page'')
         + fst (check_descriptive ''add login page'') + fst (0::int, []::string list)
         + fst (check_trailing_period ''add login page'') = 5"
    by (simp add: scoring_defs)
  from present_tense_point_needs_separator [of "''add login page''" no_options] c
  have "check_present_tense ''add login page'' = (0, [])
      \<and> score (assessCommitQuality no_options ''add login page'') =
          fst (check_conventional ''add login page'') + fst (check_length ''add login page'')
         + fst (check_descriptive ''add login page'') + fst (check_present_tense ''add login page'')
         + fst (check_trailing_period ''add login page'')"
    by blast
  with c s show ?thesis by simp
qed

text \<open>
  C4 as stated fails: \<open>add login page\<close> has no conventional prefix and starts with a
  lower-case letter, so the rule worded in the specification grants the point, but the
  code gives no present-tense point and no tag.
\<close>

theorem present_tense_without_prefix_counterexample:
  "spec_present_tense ''add login page''
   \<and> lower_az (hd (firstLine_of ''add login page''))
   \<and> \<not> regex_test conventionalPattern ''add login page''
   \<and> check_present_tense ''add login page'' = (0, [])
   \<and> reason (assessCommitQuality no_options ''add login page'')
       = ''appropriate length, descriptive, no trailing period''"
  by (simp add: scoring_defs spec_present_tense_def)

text \<open>
  C9. When the configured minimum quality score is 0, or was left unset (absent or
  undefined), the threshold in force is 7: \<open>isWellFormed\<close> is \<open>score \<ge> 7\<close>.
\<close>

theorem zero_or_unset_threshold_is_seven:
  assumes "minQualityScore raw = Defined 0 \<or> minQualityScore raw = Undefined
         \<or> minQualityScore raw = Absent"
  shows "isWellFormed (assessCommitQuality (constructor_options raw) msg)
       = (7 \<le> score (assessCommitQuality (constructor_options raw) msg))"
proof -
  from assms have "number_or (minQualityScore (constructor_options raw)) 7 = 7"
    by (auto simp: constructor_options_def spread_def number_or_def)
  then show ?thesis by (simp add: wellFormed_threshold)
qed

theorem zero_or_unset_threshold_is_seven_witness:
  "minQualityScore (no_options\<lparr>minQualityScore := Defined 0\<rparr>) = Defined 0
   \<and> score (assessCommitQuality (constructor_options (no_options\<lparr>minQualityScore := Defined 0\<rparr>))
        ''fix'') = 1
   \<and> \<not> isWellFormed
        (assessCommitQuality (constructor_options (no_options\<lparr>minQualityScore := Defined 0\<rparr>))
           ''fix'')"
proof -
  have m: "minQualityScore (no_options\<lparr>minQualityScore := Defined 0\<rparr>) = Defined 0"
    by simp
  have s: "score (assessCommitQuality
              (constructor_options (no_options\<lparr>minQualityScore := Defined 0\<rparr>)) ''fix'') = 1"
    by (simp add: scoring_defs)
  from zero_or_unset_threshold_is_seven [of "no_options\<lparr>minQualityScore := Defined 0\<rparr>" "''fix''"] m s
  show ?thesis by simp
qed

lemma slice_start: "0 < n \<Longrightarrow> nat (max 0 (int L - n)) = L - nat n"
  by arith

text \<open>
  C5. With a positive limit \<open>n\<close>, \<open>getCommits\<close> returns the last \<open>min n total\<close> entries of
  the oldest-first list that \<open>git rev-list --reverse HEAD\<close> printed, in the same order: a
  suffix of the full list. Three commits with limit 2 give the second and the third.
\<close>

theorem getCommits_takes_most_recent:
  assumes "0 < n" and "maxCommits options = Defined n" and "g RevListReverse = Some out"
  shows "getCommits options g = Inr (drop (length (output_lines out) - nat n) (output_lines out))
       \<and> length (drop (length (output_lines out) - nat n) (output_lines out))
           = min (nat n) (length (output_lines out))
       \<and> suffix (drop (length (output_lines out) - nat n) (output_lines out)) (output_lines out)"
proof -
  from assms have "getCommits options g =
      Inr (drop (nat (max 0 (int (length (output_lines out)) - n))) (output_lines out))"
    by (simp add: getCommits_def execCommand_def Let_def)
  with slice_start [OF assms(1)] have "getCommits options g =
      Inr (drop (length (output_lines out) - nat n) (output_lines out))" by simp
  moreover have "length (drop (length (output_lines out) - nat n) (output_lines out))
           = min (nat n) (length (output_lines out))" by simp
  moreover have "suffix (drop (length (output_lines out) - nat n) (output_lines out)) (output_lines out)"
    by (rule suffix_drop)
  ultimately show ?thesis by blast
qed

theorem getCommits_takes_most_recent_witness:
  "(0::int) < 2
   \<and> maxCommits (constructor_options (no_options\<lparr>maxCommits := Defined 2\<rparr>)) = Defined 2
   \<and> git_of three_commits RevListReverse = Some (unlines [''a1'', ''b2'', ''c3''])
   \<and> output_lines (unlines [''a1'', ''b2'', ''c3'']) = [''a1'', ''b2'', ''c3'']
   \<and> getCommits (constructor_options (no_options\<lparr>maxCommits := Defined 2\<rparr>)) (git_of three_commits)
       = Inr [''b2'', ''c3'']"
proof -
  have n: "(0::int) < 2" by simp
  have m: "maxCommits (constructor_options (no_options\<lparr>maxCommits := Defined 2\<rparr>)) = Defined 2"
    by (simp add: constructor_options_def)
  have g: "git_of three_commits RevListReverse = Some (unlines [''a1'', ''b2'', ''c3''])"
    by (simp add: git_of_def three_commits_def)
  have l: "output_lines (unlines [''a1'', ''b2'', ''c3'']) = [''a1'', ''b2'', ''c3'']"
    by code_simp
  from getCommits_takes_most_recent
         [of 2 "constructor_options (no_options\<lparr>maxCommits := Defined 2\<rparr>)"
             "git_of three_commits" "unlines [''a1'', ''b2'', ''c3'']", OF n m g] n m g l
  show ?thesis by simp
qed

text \<open>
  C7. In dry-run mode a run leaves the history (identifiers and messages) and the
  branches as they were, asks neither whether to proceed with the rewrite nor whether to
  apply the new messages, and never rewrites. When it completes as a dry run, every new
  message of the plan has been reported; and it does complete as a dry run, with the
  plan written, whenever the repository answers and at least one commit was improved.
\<close>

theorem dry_run_changes_nothing:
  assumes "truthy (dryRun options)"
  shows "history (final (rewrite options e w)) = history w
       \<and> branches (final (rewrite options e w)) = branches w
       \<and> Asked Proceed \<notin> set (trace (rewrite options e w))
       \<and> Asked Apply \<notin> set (trace (rewrite options e w))
       \<and> outcome (rewrite options e w) \<noteq> Rewritten
       \<and> outcome (rewrite options e w) \<noteq> Cancelled
       \<and> (getCommits options (git e) = Inr commits
            \<and> (h, m) \<in> set (messageMap (process_commits options e 0 commits initial_loop_state))
            \<and> outcome (rewrite options e w) = DryRunCompleted
          \<longrightarrow> Improved h m \<in> set (trace (rewrite options e w)))
       \<and> (git e RevParseGitDir \<noteq> None \<and> git e RevParseAbbrevRef \<noteq> None
            \<and> git e StatusPorcelain = Some []
            \<and> getCommits options (git e) = Inr commits
            \<and> orderedMessages (git e)
                 (messageMap (process_commits options e 0 commits initial_loop_state)) commits
               = Inr plan
            \<and> messageMap (process_commits options e 0 commits initial_loop_state) \<noteq> []
          \<longrightarrow> outcome (rewrite options e w) = DryRunCompleted)"
  using dry_run_frame [OF assms, of e w] dry_run_reports [of options e commits h m w]
    dry_run_completes [OF assms, of e commits plan w]
  by blast

theorem dry_run_changes_nothing_witness:
  "truthy (dryRun (constructor_options (no_options\<lparr>dryRun := Defined True\<rparr>)))
   \<and> getCommits (constructor_options (no_options\<lparr>dryRun := Defined True\<rparr>))
        (git (yes_env three_commits)) = Inr [''a1'', ''b2'', ''c3'']
   \<and> messageMap (process_commits (constructor_options (no_options\<lparr>dryRun := Defined True\<rparr>))
        (yes_env three_commits) 0 [''a1'', ''b2'', ''c3''] initial_loop_state)
       = [(''a1'', ''chore: add readme''), (''b2'', ''feat: add parser''), (''c3'', ''feat: add cli'')]
   \<and> outcome (rewrite (constructor_options (no_options\<lparr>dryRun := Defined True\<rparr>))
        (yes_env three_commits) (world_of three_commits)) = DryRunCompleted
   \<and> history (final (rewrite (constructor_options (no_options\<lparr>dryRun := Defined True\<rparr>))
        (yes_env three_commits) (world_of three_commits))) = history (world_of three_commits)
   \<and> branches (final (rewrite (constructor_options (no_options\<lparr>dryRun := Defined True\<rparr>))
        (yes_env three_commits) (world_of three_commits))) = branches (world_of three_commits)
   \<and> Improved ''b2'' ''feat: add parser''
        \<in> set (trace (rewrite (constructor_options (no_options\<lparr>dryRun := Defined True\<rparr>))
                  (yes_env three_commits) (world_of three_commits)))
   \<and> Asked Proceed
        \<notin> set (trace (rewrite (constructor_options (no_options\<lparr>dryRun := Defined True\<rparr>))
                  (yes_env three_commits) (world_of three_commits)))
   \<and> Asked Apply
        \<notin> set (trace (rewrite (constructor_options (no_options\<lparr>dryRun := Defined True\<rparr>))
                  (yes_env three_commits) (world_of three_commits)))"
proof -
  have d: "truthy (dryRun (constructor_options (no_options\<lparr>dryRun := Defined True\<rparr>)))"
    by (simp add: constructor_options_def spread_def truthy_def)
  have g: "git (yes_env three_commits) RevParseGitDir \<noteq> None
         \<and> git (yes_env three_commits) RevParseAbbrevRef \<noteq> None
         \<and> git (yes_env three_commits) StatusPorcelain = Some []"
    by (simp add: yes_env_def git_of_def)
  have c: "getCommits (constructor_options (no_options\<lparr>dryRun := Defined True\<rparr>))
        (git (yes_env three_commits)) = Inr [''a1'', ''b2'', ''c3'']"
    by code_simp
  have mm: "messageMap (process_commits (constructor_options (no_options\<lparr>dryRun := Defined True\<rparr>))
        (yes_env three_commits) 0 [''a1'', ''b2'', ''c3''] initial_loop_state)
       = [(''a1'', ''chore: add readme''), (''b2'', ''feat: add parser''), (''c3'', ''feat: add cli'')]"
    by code_simp
  have om: "orderedMessages (git (yes_env three_commits))
         (messageMap (process_commits (constructor_options (no_options\<lparr>dryRun := Defined True\<rparr>))
            (yes_env three_commits) 0 [''a1'', ''b2'', ''c3''] initial_loop_state))
         [''a1'', ''b2'', ''c3'']
       = Inr [''chore: add readme'', ''feat: add parser'', ''feat: add cli'']"
    by code_simp
  have mem: "(''b2'', ''feat: add parser'')
       \<in> set (messageMap (process_commits (constructor_options (no_options\<lparr>dryRun := Defined True\<rparr>))
            (yes_env three_commits) 0 [''a1'', ''b2'', ''c3''] initial_loop_state))"
    unfolding mm by simp
  have ne: "messageMap (process_commits (constructor_options (no_options\<lparr>dryRun := Defined True\<rparr>))
            (yes_env three_commits) 0 [''a1'', ''b2'', ''c3''] initial_loop_state) \<noteq> []"
    unfolding mm by simp
  from dry_run_changes_nothing [OF d, of "yes_env three_commits" "world_of three_commits"
      "[''a1'', ''b2'', ''c3'']" "''b2''" "''feat: add parser''"
      "[''chore: add readme'', ''feat: add parser'', ''feat: add cli'']"] d g c mm om mem ne
  show ?thesis by blast
qed

text \<open>
  C1 fails on the code when \<open>maxCommits\<close> is smaller than the history. With three commits
  and \<open>maxCommits = 2\<close> the plan is built for the second and the third commit, but
  \<open>git filter-branch ... HEAD\<close> visits all three: the first commit receives the message
  planned for the second, the second the one planned for the third, and the third keeps
  its own.
\<close>

theorem max_commits_misassigns_messages:
  "getCommits (constructor_options (no_options\<lparr>maxCommits := Defined 2\<rparr>)) (git_of three_commits)
     = Inr [''b2'', ''c3'']
   \<and> messageMap (process_commits (constructor_options (no_options\<lparr>maxCommits := Defined 2\<rparr>))
                   (yes_env three_commits) 0 [''b2'', ''c3''] initial_loop_state)
     = [(''b2'', ''feat: add parser''), (''c3'', ''feat: add cli'')]
   \<and> history (final (rewrite (constructor_options (no_options\<lparr>maxCommits := Defined 2\<rparr>))
                       (yes_env three_commits) (world_of three_commits)))
     = [(''a1'', ''feat: add parser''), (''b2'', ''feat: add cli''), (''c3'', ''wip'')]"
  by (simp add: enumerate_limited loop_limited run_limited del: process_commits.simps)

text \<open>
  C6 fails on the code: the plan file is written before the three early returns, and only
  \<open>rewriteHistory\<close> deletes it. After a dry run, after a declined confirmation and after
  a run that changed no message the file \<open>commit-message-map.json\<close> is still there; only
  the run that rewrites removes it.
\<close>

theorem plan_file_left_behind:
  "mappingFile (final (rewrite (constructor_options (no_options\<lparr>dryRun := Defined True\<rparr>))
                   (yes_env three_commits) (world_of three_commits)))
     = Some [''chore: add readme'', ''feat: add parser'', ''feat: add cli'']
   \<and> mappingFile (final (rewrite (constructor_options no_options)
                   ((yes_env three_commits)\<lparr>answer := (\<lambda>q. if q = Apply then ''n'' else ''y'')\<rparr>)
                   (world_of three_commits)))
     = Some [''chore: add readme'', ''feat: add parser'', ''feat: add cli'']
   \<and> mappingFile (final (rewrite (constructor_options no_options)
                   ((yes_env three_commits)\<lparr>provider := failing_provider\<rparr>)
                   (world_of three_commits)))
     = Some [''initial'', ''update'', ''wip'']
   \<and> mappingFile (final (rewrite (constructor_options no_options)
                   (yes_env three_commits) (world_of three_commits))) = None"
  by (simp add: run_dry run_declined run_provider_down run_full)

text \<open>
  C8, as the code has it. A failure of the repository check or of the enumeration of
  the commits is fatal, on a clean working tree and on a dirty one the user accepted: the
  run throws at once with nothing changed. A failure of \<open>git log --format=%B\<close> for a commit
  that has no new message is fatal too: the ordered list cannot be built, the run throws
  for that command before the plan file is written, and the history is untouched. But a
  failure of reading a commit's subject, file list or diff in the per-commit pass is
  caught inside the loop: the iteration only reports it, and the loop goes on with the
  remaining commits.
\<close>

theorem read_failures_fatal_or_absorbed:
  "(git e RevParseGitDir = None
      \<longrightarrow> rewrite options e w = \<lparr> outcome = Thrown NotAGitRepository, final = w, trace = [] \<rparr>)
   \<and> (git e RevParseGitDir \<noteq> None \<and> git e RevParseAbbrevRef \<noteq> None
        \<and> git e StatusPorcelain = Some status
        \<and> (status = [] \<or> askConfirmation e ContinueAnyway)
        \<and> git e RevListReverse = None
      \<longrightarrow> rewrite options e w =
            \<lparr> outcome = Thrown (CommandFailed RevListReverse), final = w,
              trace = (if status \<noteq> [] then [Asked ContinueAnyway] else []) \<rparr>)
   \<and> (orderedMessages (git e)
         (messageMap (process_commits options e 0 commits initial_loop_state)) commits = Inl err
      \<longrightarrow> outcome (plan_and_apply options e commits w tr) = Thrown err
          \<and> final (plan_and_apply options e commits w tr) = w)
   \<and> (h \<in> set commits
        \<and> map_of (messageMap (process_commits options e 0 commits initial_loop_state)) h = None
        \<and> git e (LogBody h) = None
      \<longrightarrow> (\<exists>h' \<in> set commits. git e (LogBody h') = None
             \<and> outcome (plan_and_apply options e commits w tr)
                 = Thrown (CommandFailed (LogBody h')))
          \<and> final (plan_and_apply options e commits w tr) = w)
   \<and> (getCommits options (git e) = Inr commits \<and> h \<in> set commits
        \<and> map_of (messageMap (process_commits options e 0 commits initial_loop_state)) h = None
        \<and> git e (LogBody h) = None
      \<longrightarrow> outcome (rewrite options e w) \<noteq> NothingToChange
          \<and> outcome (rewrite options e w) \<noteq> DryRunCompleted
          \<and> outcome (rewrite options e w) \<noteq> Cancelled
          \<and> outcome (rewrite options e w) \<noteq> Rewritten
          \<and> history (final (rewrite options e w)) = history w
          \<and> mappingFile (final (rewrite options e w)) = mappingFile w)
   \<and> (git e (LogSubject h) = None \<or> git e (DiffTreeNames h) = None
        \<or> git e (if i = 0 then DiffTreeRoot h else DiffTreeParent h) = None
      \<longrightarrow> (\<exists>failure.
            process_commit options e i h st = st\<lparr>events := events st @ [Failed h failure]\<rparr>
            \<and> process_commits options e i (h # hs) st
                = process_commits options e (Suc i) hs
                    (st\<lparr>events := events st @ [Failed h failure]\<rparr>)))"
proof (intro conjI)
  show "(git e RevParseGitDir = None
      \<longrightarrow> rewrite options e w = \<lparr> outcome = Thrown NotAGitRepository, final = w, trace = [] \<rparr>)"
    by (simp add: not_a_repository)
next
  show "(git e RevParseGitDir \<noteq> None \<and> git e RevParseAbbrevRef \<noteq> None
        \<and> git e StatusPorcelain = Some status
        \<and> (status = [] \<or> askConfirmation e ContinueAnyway)
        \<and> git e RevListReverse = None
      \<longrightarrow> rewrite options e w =
            \<lparr> outcome = Thrown (CommandFailed RevListReverse), final = w,
              trace = (if status \<noteq> [] then [Asked ContinueAnyway] else []) \<rparr>)"
    using enumeration_fails_after_status [of e status options w] by blast
next
  show "(orderedMessages (git e)
         (messageMap (process_commits options e 0 commits initial_loop_state)) commits = Inl err
      \<longrightarrow> outcome (plan_and_apply options e commits w tr) = Thrown err
          \<and> final (plan_and_apply options e commits w tr) = w)"
    using full_message_read_fails [of e options commits err w tr] by blast
next
  show "(h \<in> set commits
        \<and> map_of (messageMap (process_commits options e 0 commits initial_loop_state)) h = None
        \<and> git e (LogBody h) = None
      \<longrightarrow> (\<exists>h' \<in> set commits. git e (LogBody h') = None
             \<and> outcome (plan_and_apply options e commits w tr)
                 = Thrown (CommandFailed (LogBody h')))
          \<and> final (plan_and_apply options e commits w tr) = w)"
    using unread_body_stops_plan [of h commits options e w tr] by blast
next
  show "(getCommits options (git e) = Inr commits \<and> h \<in> set commits
        \<and> map_of (messageMap (process_commits options e 0 commits initial_loop_state)) h = None
        \<and> git e (LogBody h) = None
      \<longrightarrow> outcome (rewrite options e w) \<noteq> NothingToChange
          \<and> outcome (rewrite options e w) \<noteq> DryRunCompleted
          \<and> outcome (rewrite options e w) \<noteq> Cancelled
          \<and> outcome (rewrite options e w) \<noteq> Rewritten
          \<and> history (final (rewrite options e w)) = history w
          \<and> mappingFile (final (rewrite options e w)) = mappingFile w)"
    using unread_body_is_fatal [of options e commits h w] by blast
next
  show "(git e (LogSubject h) = None \<or> git e (DiffTreeNames h) = None
        \<or> git e (if i = 0 then DiffTreeRoot h else DiffTreeParent h) = None
      \<longrightarrow> (\<exists>failure.
            process_commit options e i h st = st\<lparr>events := events st @ [Failed h failure]\<rparr>
            \<and> process_commits options e i (h # hs) st
                = process_commits options e (Suc i) hs
                    (st\<lparr>events := events st @ [Failed h failure]\<rparr>)))"
  proof
    assume "git e (LogSubject h) = None \<or> git e (DiffTreeNames h) = None
        \<or> git e (if i = 0 then DiffTreeRoot h else DiffTreeParent h) = None"
    then obtain failure where "getCommitInfo (git e) h i = Inl failure"
      using getCommitInfo_fails by blast
    then have "process_commit options e i h st = st\<lparr>events := events st @ [Failed h failure]\<rparr>"
      by (rule process_commit_absorbs)
    then show "\<exists>failure.
            process_commit options e i h st = st\<lparr>events := events st @ [Failed h failure]\<rparr>
            \<and> process_commits options e i (h # hs) st
                = process_commits options e (Suc i) hs
                    (st\<lparr>events := events st @ [Failed h failure]\<rparr>)"
      by auto
  qed
qed

text \<open>
  C8 as stated fails: when the diff of the second of three commits cannot be read (say it
  exceeds the buffer of \<open>execSync\<close>), the run does not stop. It reports the failure,
  goes on to improve the third commit, and rewrites the history.
\<close>

theorem unreadable_commit_is_absorbed_counterexample:
  "((git_of three_commits)(DiffTreeParent ''b2'' := None)) (DiffTreeParent ''b2'') = None
   \<and> outcome (rewrite (constructor_options no_options)
        ((yes_env three_commits)\<lparr>git := (git_of three_commits)(DiffTreeParent ''b2'' := None)\<rparr>)
        (world_of three_commits)) = Rewritten
   \<and> trace (rewrite (constructor_options no_options)
        ((yes_env three_commits)\<lparr>git := (git_of three_commits)(DiffTreeParent ''b2'' := None)\<rparr>)
        (world_of three_commits))
      = [Asked Proceed, Improved ''a1'' ''chore: add readme'',
         Failed ''b2'' (CommandFailed (DiffTreeParent ''b2'')),
         Improved ''c3'' ''feat: add cli'', Asked Apply]
   \<and> history (final (rewrite (constructor_options no_options)
        ((yes_env three_commits)\<lparr>git := (git_of three_commits)(DiffTreeParent ''b2'' := None)\<rparr>)
        (world_of three_commits)))
      = [(''a1'', ''chore: add readme''), (''b2'', ''update''), (''c3'', ''feat: add cli'')]"
  by (simp add: run_diff_unreadable)

theorem read_failures_fatal_or_absorbed_witness:
  "git ((yes_env three_commits)\<lparr>git := (git_of three_commits)(RevParseGitDir := None)\<rparr>) RevParseGitDir = None
   \<and> rewrite (constructor_options no_options) ((yes_env three_commits)\<lparr>git := (git_of three_commits)(RevParseGitDir := None)\<rparr>) (world_of three_commits)
      = \<lparr> outcome = Thrown NotAGitRepository, final = (world_of three_commits), trace = [] \<rparr>
   \<and> askConfirmation ((yes_env three_commits)\<lparr>git := (git_of three_commits)
          (StatusPorcelain := Some '' M notes.txt'', RevListReverse := None)\<rparr>) ContinueAnyway
   \<and> git ((yes_env three_commits)\<lparr>git := (git_of three_commits)
          (StatusPorcelain := Some '' M notes.txt'', RevListReverse := None)\<rparr>) RevListReverse = None
   \<and> rewrite (constructor_options no_options) ((yes_env three_commits)\<lparr>git := (git_of three_commits)
          (StatusPorcelain := Some '' M notes.txt'', RevListReverse := None)\<rparr>) (world_of three_commits)
      = \<lparr> outcome = Thrown (CommandFailed RevListReverse), final = (world_of three_commits),
          trace = [Asked ContinueAnyway] \<rparr>
   \<and> orderedMessages (git ((yes_env three_commits)\<lparr>git := (git_of three_commits)(LogBody ''b2'' := None),
          provider := failing_provider\<rparr>)) (messageMap (process_commits (constructor_options no_options) ((yes_env three_commits)\<lparr>git := (git_of three_commits)(LogBody ''b2'' := None),
          provider := failing_provider\<rparr>) 0 [''a1'', ''b2'', ''c3''] initial_loop_state)) [''a1'', ''b2'', ''c3'']
      = Inl (CommandFailed (LogBody ''b2''))
   \<and> outcome (plan_and_apply (constructor_options no_options) ((yes_env three_commits)\<lparr>git := (git_of three_commits)(LogBody ''b2'' := None),
          provider := failing_provider\<rparr>) [''a1'', ''b2'', ''c3''] (world_of three_commits) [Asked Proceed])
      = Thrown (CommandFailed (LogBody ''b2''))
    \<and> final (plan_and_apply (constructor_options no_options) ((yes_env three_commits)\<lparr>git := (git_of three_commits)(LogBody ''b2'' := None),
          provider := failing_provider\<rparr>) [''a1'', ''b2'', ''c3''] (world_of three_commits) [Asked Proceed]) = (world_of three_commits)
   \<and> getCommits (constructor_options no_options) (git ((yes_env three_commits)\<lparr>git := (git_of three_commits)(LogBody ''b2'' := None),
          provider := failing_provider\<rparr>)) = Inr [''a1'', ''b2'', ''c3'']
   \<and> map_of (messageMap (process_commits (constructor_options no_options) ((yes_env three_commits)\<lparr>git := (git_of three_commits)(LogBody ''b2'' := None),
          provider := failing_provider\<rparr>) 0 [''a1'', ''b2'', ''c3''] initial_loop_state)) ''b2'' = None
   \<and> git ((yes_env three_commits)\<lparr>git := (git_of three_commits)(LogBody ''b2'' := None),
          provider := failing_provider\<rparr>) (LogBody ''b2'') = None
   \<and> (\<exists>h' \<in> set [''a1'', ''b2'', ''c3'']. git ((yes_env three_commits)\<lparr>git := (git_of three_commits)(LogBody ''b2'' := None),
          provider := failing_provider\<rparr>) (LogBody h') = None
          \<and> outcome (plan_and_apply (constructor_options no_options) ((yes_env three_commits)\<lparr>git := (git_of three_commits)(LogBody ''b2'' := None),
          provider := failing_provider\<rparr>) [''a1'', ''b2'', ''c3''] (world_of three_commits) [Asked Proceed])
              = Thrown (CommandFailed (LogBody h')))
   \<and> outcome (rewrite (constructor_options no_options) ((yes_env three_commits)\<lparr>git := (git_of three_commits)(LogBody ''b2'' := None),
          provider := failing_provider\<rparr>) (world_of three_commits)) \<noteq> NothingToChange
    \<and> outcome (rewrite (constructor_options no_options) ((yes_env three_commits)\<lparr>git := (git_of three_commits)(LogBody ''b2'' := None),
          provider := failing_provider\<rparr>) (world_of three_commits)) \<noteq> DryRunCompleted
    \<and> outcome (rewrite (constructor_options no_options) ((yes_env three_commits)\<lparr>git := (git_of three_commits)(LogBody ''b2'' := None),
          provider := failing_provider\<rparr>) (world_of three_commits)) \<noteq> Cancelled
    \<and> outcome (rewrite (constructor_options no_options) ((yes_env three_commits)\<lparr>git := (git_of three_commits)(LogBody ''b2'' := None),
          provider := failing_provider\<rparr>) (world_of three_commits)) \<noteq> Rewritten
    \<and> history (final (rewrite (constructor_options no_options) ((yes_env three_commits)\<lparr>git := (git_of three_commits)(LogBody ''b2'' := None),
          provider := failing_provider\<rparr>) (world_of three_commits))) = history (world_of three_commits)
    \<and> mappingFile (final (rewrite (constructor_options no_options) ((yes_env three_commits)\<lparr>git := (git_of three_commits)(LogBody ''b2'' := None),
          provider := failing_provider\<rparr>) (world_of three_commits))) = mappingFile (world_of three_commits)
   \<and> git ((yes_env three_commits)\<lparr>git := (git_of three_commits)(LogSubject ''b2'' := None)\<rparr>) (LogSubject ''b2'') = None
   \<and> (\<exists>failure.
        process_commit (constructor_options no_options) ((yes_env three_commits)\<lparr>git := (git_of three_commits)(LogSubject ''b2'' := None)\<rparr>) 1 ''b2'' initial_loop_state
        = initial_loop_state\<lparr>events := events initial_loop_state @ [Failed ''b2'' failure]\<rparr>
        \<and> process_commits (constructor_options no_options) ((yes_env three_commits)\<lparr>git := (git_of three_commits)(LogSubject ''b2'' := None)\<rparr>) 1 [''b2'', ''c3''] initial_loop_state
        = process_commits (constructor_options no_options) ((yes_env three_commits)\<lparr>git := (git_of three_commits)(LogSubject ''b2'' := None)\<rparr>) (Suc 1) [''c3'']
            (initial_loop_state\<lparr>events := events initial_loop_state @ [Failed ''b2'' failure]\<rparr>))"
proof -
  have r: "git ((yes_env three_commits)\<lparr>git := (git_of three_commits)(RevParseGitDir := None)\<rparr>) RevParseGitDir = None"
    by simp
  from read_failures_fatal_or_absorbed [where e = "((yes_env three_commits)\<lparr>git := (git_of three_commits)(RevParseGitDir := None)\<rparr>)" and options = "(constructor_options no_options)" and w = "(world_of three_commits)"] r
  have 1: "rewrite (constructor_options no_options) ((yes_env three_commits)\<lparr>git := (git_of three_commits)(RevParseGitDir := None)\<rparr>) (world_of three_commits)
      = \<lparr> outcome = Thrown NotAGitRepository, final = (world_of three_commits), trace = [] \<rparr>"
    by blast
  have a: "askConfirmation ((yes_env three_commits)\<lparr>git := (git_of three_commits)
          (StatusPorcelain := Some '' M notes.txt'', RevListReverse := None)\<rparr>) ContinueAnyway"
    by (simp add: askConfirmation_def yes_env_def toLowerCase_def lower_char_def
        upper_letters_def lower_letters_def)
  have g: "git ((yes_env three_commits)\<lparr>git := (git_of three_commits)
          (StatusPorcelain := Some '' M notes.txt'', RevListReverse := None)\<rparr>) RevParseGitDir \<noteq> None
       \<and> git ((yes_env three_commits)\<lparr>git := (git_of three_commits)
          (StatusPorcelain := Some '' M notes.txt'', RevListReverse := None)\<rparr>) RevParseAbbrevRef \<noteq> None
       \<and> git ((yes_env three_commits)\<lparr>git := (git_of three_commits)
          (StatusPorcelain := Some '' M notes.txt'', RevListReverse := None)\<rparr>) StatusPorcelain = Some '' M notes.txt''
       \<and> ('' M notes.txt'' = [] \<or> askConfirmation ((yes_env three_commits)\<lparr>git := (git_of three_commits)
          (StatusPorcelain := Some '' M notes.txt'', RevListReverse := None)\<rparr>) ContinueAnyway)
       \<and> git ((yes_env three_commits)\<lparr>git := (git_of three_commits)
          (StatusPorcelain := Some '' M notes.txt'', RevListReverse := None)\<rparr>) RevListReverse = None"
    using a by (simp add: git_of_def)
  from read_failures_fatal_or_absorbed [where e = "((yes_env three_commits)\<lparr>git := (git_of three_commits)
          (StatusPorcelain := Some '' M notes.txt'', RevListReverse := None)\<rparr>)" and options = "(constructor_options no_options)" and w = "(world_of three_commits)"
                and status = "'' M notes.txt''"] g
  have "rewrite (constructor_options no_options) ((yes_env three_commits)\<lparr>git := (git_of three_commits)
          (StatusPorcelain := Some '' M notes.txt'', RevListReverse := None)\<rparr>) (world_of three_commits)
      = \<lparr> outcome = Thrown (CommandFailed RevListReverse), final = (world_of three_commits),
          trace = (if '' M notes.txt'' \<noteq> [] then [Asked ContinueAnyway] else []) \<rparr>"
    by blast
  then have 2: "rewrite (constructor_options no_options) ((yes_env three_commits)\<lparr>git := (git_of three_commits)
          (StatusPorcelain := Some '' M notes.txt'', RevListReverse := None)\<rparr>) (world_of three_commits)
      = \<lparr> outcome = Thrown (CommandFailed RevListReverse), final = (world_of three_commits),
          trace = [Asked ContinueAnyway] \<rparr>"
    by simp
  have l: "git ((yes_env three_commits)\<lparr>git := (git_of three_commits)
          (StatusPorcelain := Some '' M notes.txt'', RevListReverse := None)\<rparr>) RevListReverse = None"
    by simp
  have om: "orderedMessages (git ((yes_env three_commits)\<lparr>git := (git_of three_commits)(LogBody ''b2'' := None),
          provider := failing_provider\<rparr>)) (messageMap (process_commits (constructor_options no_options) ((yes_env three_commits)\<lparr>git := (git_of three_commits)(LogBody ''b2'' := None),
          provider := failing_provider\<rparr>) 0 [''a1'', ''b2'', ''c3''] initial_loop_state)) [''a1'', ''b2'', ''c3'']
      = Inl (CommandFailed (LogBody ''b2''))"
    by code_simp
  have gc: "getCommits (constructor_options no_options) (git ((yes_env three_commits)\<lparr>git := (git_of three_commits)(LogBody ''b2'' := None),
          provider := failing_provider\<rparr>)) = Inr [''a1'', ''b2'', ''c3'']"
    by code_simp
  have mm: "map_of (messageMap (process_commits (constructor_options no_options) ((yes_env three_commits)\<lparr>git := (git_of three_commits)(LogBody ''b2'' := None),
          provider := failing_provider\<rparr>) 0 [''a1'', ''b2'', ''c3''] initial_loop_state)) ''b2'' = None"
    by code_simp
  have lb: "git ((yes_env three_commits)\<lparr>git := (git_of three_commits)(LogBody ''b2'' := None),
          provider := failing_provider\<rparr>) (LogBody ''b2'') = None"
    by simp
  have mem: "''b2'' \<in> set [''a1'', ''b2'', ''c3'']"
    by simp
  note c = read_failures_fatal_or_absorbed [where e = "((yes_env three_commits)\<lparr>git := (git_of three_commits)(LogBody ''b2'' := None),
          provider := failing_provider\<rparr>)" and options = "(constructor_options no_options)" and w = "(world_of three_commits)"
                and commits = "[''a1'', ''b2'', ''c3'']" and err = "CommandFailed (LogBody ''b2'')"
                and tr = "[Asked Proceed]" and h = "''b2''"]
  from c om have 3: "outcome (plan_and_apply (constructor_options no_options) ((yes_env three_commits)\<lparr>git := (git_of three_commits)(LogBody ''b2'' := None),
          provider := failing_provider\<rparr>) [''a1'', ''b2'', ''c3''] (world_of three_commits) [Asked Proceed])
      = Thrown (CommandFailed (LogBody ''b2''))
    \<and> final (plan_and_apply (constructor_options no_options) ((yes_env three_commits)\<lparr>git := (git_of three_commits)(LogBody ''b2'' := None),
          provider := failing_provider\<rparr>) [''a1'', ''b2'', ''c3''] (world_of three_commits) [Asked Proceed]) = (world_of three_commits)"
    by blast
  from c mem mm lb have 4: "(\<exists>h' \<in> set [''a1'', ''b2'', ''c3'']. git ((yes_env three_commits)\<lparr>git := (git_of three_commits)(LogBody ''b2'' := None),
          provider := failing_provider\<rparr>) (LogBody h') = None
          \<and> outcome (plan_and_apply (constructor_options no_options) ((yes_env three_commits)\<lparr>git := (git_of three_commits)(LogBody ''b2'' := None),
          provider := failing_provider\<rparr>) [''a1'', ''b2'', ''c3''] (world_of three_commits) [Asked Proceed])
              = Thrown (CommandFailed (LogBody h')))"
    by blast
  from c gc mem mm lb have 5: "outcome (rewrite (constructor_options no_options) ((yes_env three_commits)\<lparr>git := (git_of three_commits)(LogBody ''b2'' := None),
          provider := failing_provider\<rparr>) (world_of three_commits)) \<noteq> NothingToChange
    \<and> outcome (rewrite (constructor_options no_options) ((yes_env three_commits)\<lparr>git := (git_of three_commits)(LogBody ''b2'' := None),
          provider := failing_provider\<rparr>) (world_of three_commits)) \<noteq> DryRunCompleted
    \<and> outcome (rewrite (constructor_options no_options) ((yes_env three_commits)\<lparr>git := (git_of three_commits)(LogBody ''b2'' := None),
          provider := failing_provider\<rparr>) (world_of three_commits)) \<noteq> Cancelled
    \<and> outcome (rewrite (constructor_options no_options) ((yes_env three_commits)\<lparr>git := (git_of three_commits)(LogBody ''b2'' := None),
          provider := failing_provider\<rparr>) (world_of three_commits)) \<noteq> Rewritten
    \<and> history (final (rewrite (constructor_options no_options) ((yes_env three_commits)\<lparr>git := (git_of three_commits)(LogBody ''b2'' := None),
          provider := failing_provider\<rparr>) (world_of three_commits))) = history (world_of three_commits)
    \<and> mappingFile (final (rewrite (constructor_options no_options) ((yes_env three_commits)\<lparr>git := (git_of three_commits)(LogBody ''b2'' := None),
          provider := failing_provider\<rparr>) (world_of three_commits))) = mappingFile (world_of three_commits)"
    by blast
  have s: "git ((yes_env three_commits)\<lparr>git := (git_of three_commits)(LogSubject ''b2'' := None)\<rparr>) (LogSubject ''b2'') = None"
    by simp
  from read_failures_fatal_or_absorbed [where e = "((yes_env three_commits)\<lparr>git := (git_of three_commits)(LogSubject ''b2'' := None)\<rparr>)" and options = "(constructor_options no_options)" and h = "''b2''" and i = 1
                and st = initial_loop_state and hs = "[''c3'']"] s
  have 6: "(\<exists>failure.
        process_commit (constructor_options no_options) ((yes_env three_commits)\<lparr>git := (git_of three_commits)(LogSubject ''b2'' := None)\<rparr>) 1 ''b2'' initial_loop_state
        = initial_loop_state\<lparr>events := events initial_loop_state @ [Failed ''b2'' failure]\<rparr>
        \<and> process_commits (constructor_options no_options) ((yes_env three_commits)\<lparr>git := (git_of three_commits)(LogSubject ''b2'' := None)\<rparr>) 1 [''b2'', ''c3''] initial_loop_state
        = process_commits (constructor_options no_options) ((yes_env three_commits)\<lparr>git := (git_of three_commits)(LogSubject ''b2'' := None)\<rparr>) (Suc 1) [''c3'']
            (initial_loop_state\<lparr>events := events initial_loop_state @ [Failed ''b2'' failure]\<rparr>))"
    by blast
  from r 1 a l 2 om 3 gc mm lb 4 5 s 6 show ?thesis by blast
qed

text \<open>
  C2. When every provider call fails (the call throws, the response has no content, or
  the content is empty once trimmed), the loop stores no new message, so no commit counts
  as generated, and the ordered list holds for every commit its full original message as
  git prints it, trimmed; the run never rewrites and the history stays as it was. Whatever
  the provider answers, a run throws only for an error that a failed git command
  explains, never for the provider. A failure is local to its commit: whenever the call
  for one commit fails, among successes or not, that commit has no new message and its
  entry of the ordered list is its original message; and what is stored and listed for a
  commit depends on the provider only through the call made for that commit, so no
  failure or success of another call changes it.
\<close>

theorem provider_failures_keep_every_message:
  assumes "\<And>h. h \<in> set commits \<Longrightarrow> git e (LogBody h) = Some (body h)"
  shows "((\<forall>i r. provider_failed (provider e i r)) \<longrightarrow>
           messageMap (process_commits options e 0 commits initial_loop_state) = []
         \<and> improvedCount (process_commits options e 0 commits initial_loop_state) = 0
         \<and> orderedMessages (git e) (messageMap (process_commits options e 0 commits initial_loop_state)) commits
             = Inr (map (\<lambda>h. trim (body h)) commits)
         \<and> history (final (rewrite options e w)) = history w
         \<and> outcome (rewrite options e w) \<noteq> Rewritten
         \<and> outcome (rewrite options e w) \<noteq> DryRunCompleted
         \<and> outcome (rewrite options e w) \<noteq> Cancelled)
       \<and> (\<forall>err. outcome (rewrite options e w) = Thrown err \<longrightarrow> git_failure (git e) err)
       \<and> (distinct commits \<and> k < length commits \<and> (\<forall>r. provider_failed (provider e k r)) \<longrightarrow>
           map_of (messageMap (process_commits options e 0 commits initial_loop_state)) (commits ! k) = None
         \<and> (\<exists>plan. orderedMessages (git e) (messageMap (process_commits options e 0 commits initial_loop_state)) commits = Inr plan
                  \<and> plan ! k = trim (body (commits ! k))))
       \<and> (distinct commits \<and> j < length commits \<and> (\<forall>r. p j r = provider e j r) \<longrightarrow>
           map_of (messageMap (process_commits options (e\<lparr>provider := p\<rparr>) 0 commits initial_loop_state)) (commits ! j)
             = map_of (messageMap (process_commits options e 0 commits initial_loop_state)) (commits ! j)
         \<and> plan_entry (git e) (messageMap (process_commits options (e\<lparr>provider := p\<rparr>) 0 commits initial_loop_state)) (commits ! j)
             = plan_entry (git e) (messageMap (process_commits options e 0 commits initial_loop_state)) (commits ! j))"
proof (intro conjI)
  show "((\<forall>i r. provider_failed (provider e i r)) \<longrightarrow>
           messageMap (process_commits options e 0 commits initial_loop_state) = []
         \<and> improvedCount (process_commits options e 0 commits initial_loop_state) = 0
         \<and> orderedMessages (git e) (messageMap (process_commits options e 0 commits initial_loop_state)) commits
             = Inr (map (\<lambda>h. trim (body h)) commits)
         \<and> history (final (rewrite options e w)) = history w
         \<and> outcome (rewrite options e w) \<noteq> Rewritten
         \<and> outcome (rewrite options e w) \<noteq> DryRunCompleted
         \<and> outcome (rewrite options e w) \<noteq> Cancelled)"
  proof
    assume all: "\<forall>i r. provider_failed (provider e i r)"
    then have pf: "\<And>i r. provider_failed (provider e i r)" by blast
    from loop_without_new_messages
           [of options e 0 commits initial_loop_state, OF no_new_message [OF pf]]
    have mm: "messageMap (process_commits options e 0 commits initial_loop_state) = []
          \<and> improvedCount (process_commits options e 0 commits initial_loop_state) = 0"
      by (simp add: initial_loop_state_def)
    have "orderedMessages (git e) [] commits = Inr (map (\<lambda>h. trim (body h)) commits)"
      by (rule orderedMessages_all_ok) (simp add: plan_entry_unmapped assms)
    with mm provider_down_run [OF pf, of options w]
    show "messageMap (process_commits options e 0 commits initial_loop_state) = []
         \<and> improvedCount (process_commits options e 0 commits initial_loop_state) = 0
         \<and> orderedMessages (git e) (messageMap (process_commits options e 0 commits initial_loop_state)) commits
             = Inr (map (\<lambda>h. trim (body h)) commits)
         \<and> history (final (rewrite options e w)) = history w
         \<and> outcome (rewrite options e w) \<noteq> Rewritten
         \<and> outcome (rewrite options e w) \<noteq> DryRunCompleted
         \<and> outcome (rewrite options e w) \<noteq> Cancelled"
      by simp
  qed
next
  show "(\<forall>err. outcome (rewrite options e w) = Thrown err \<longrightarrow> git_failure (git e) err)"
    by (rule thrown_only_by_git)
next
  show "(distinct commits \<and> k < length commits \<and> (\<forall>r. provider_failed (provider e k r)) \<longrightarrow>
           map_of (messageMap (process_commits options e 0 commits initial_loop_state)) (commits ! k) = None
         \<and> (\<exists>plan. orderedMessages (git e) (messageMap (process_commits options e 0 commits initial_loop_state)) commits = Inr plan
                  \<and> plan ! k = trim (body (commits ! k))))"
  proof
    assume a: "distinct commits \<and> k < length commits \<and> (\<forall>r. provider_failed (provider e k r))"
    then have d: "distinct commits" and k: "k < length commits"
      and f: "\<And>r. provider_failed (provider e k r)" by blast+
    from map_of_loop_initial [OF d k, of options e]
      failed_call_stores_nothing [of e k options "commits ! k", OF f]
    have none: "map_of (messageMap (process_commits options e 0 commits initial_loop_state)) (commits ! k) = None"
      by (rule trans)
    from orderedMessages_readable [of commits "git e" body "messageMap (process_commits options e 0 commits initial_loop_state)"] assms
    have om: "orderedMessages (git e) (messageMap (process_commits options e 0 commits initial_loop_state)) commits =
        Inr (map (\<lambda>h. case map_of (messageMap (process_commits options e 0 commits initial_loop_state)) h of
                            Some m \<Rightarrow> if m \<noteq> [] then m else trim (body h)
                          | None \<Rightarrow> trim (body h)) commits)"
      by blast
    from k none have "map (\<lambda>h. case map_of (messageMap (process_commits options e 0 commits initial_loop_state)) h of
                            Some m \<Rightarrow> if m \<noteq> [] then m else trim (body h)
                          | None \<Rightarrow> trim (body h)) commits ! k = trim (body (commits ! k))"
      by simp
    with om none
    show "map_of (messageMap (process_commits options e 0 commits initial_loop_state)) (commits ! k) = None
         \<and> (\<exists>plan. orderedMessages (git e) (messageMap (process_commits options e 0 commits initial_loop_state)) commits = Inr plan
                  \<and> plan ! k = trim (body (commits ! k)))"
      by blast
  qed
next
  show "(distinct commits \<and> j < length commits \<and> (\<forall>r. p j r = provider e j r) \<longrightarrow>
           map_of (messageMap (process_commits options (e\<lparr>provider := p\<rparr>) 0 commits initial_loop_state)) (commits ! j)
             = map_of (messageMap (process_commits options e 0 commits initial_loop_state)) (commits ! j)
         \<and> plan_entry (git e) (messageMap (process_commits options (e\<lparr>provider := p\<rparr>) 0 commits initial_loop_state)) (commits ! j)
             = plan_entry (git e) (messageMap (process_commits options e 0 commits initial_loop_state)) (commits ! j))"
  proof
    assume a: "distinct commits \<and> j < length commits \<and> (\<forall>r. p j r = provider e j r)"
    then have d: "distinct commits" and j: "j < length commits"
      and own: "\<And>r. p j r = provider e j r" by blast+
    from map_of_loop_initial [OF d j, of options "e\<lparr>provider := p\<rparr>"]
      new_message_for_own_call [of p j e options "commits ! j", OF own]
      map_of_loop_initial [OF d j, of options e]
    have "map_of (messageMap (process_commits options (e\<lparr>provider := p\<rparr>) 0 commits initial_loop_state)) (commits ! j)
             = map_of (messageMap (process_commits options e 0 commits initial_loop_state)) (commits ! j)"
      by (simp only:)
    then show "map_of (messageMap (process_commits options (e\<lparr>provider := p\<rparr>) 0 commits initial_loop_state)) (commits ! j)
             = map_of (messageMap (process_commits options e 0 commits initial_loop_state)) (commits ! j)
         \<and> plan_entry (git e) (messageMap (process_commits options (e\<lparr>provider := p\<rparr>) 0 commits initial_loop_state)) (commits ! j)
             = plan_entry (git e) (messageMap (process_commits options e 0 commits initial_loop_state)) (commits ! j)"
      using plan_entry_lookup by blast
  qed
qed


theorem provider_failures_keep_every_message_witness:
  "(\<forall>i r. provider_failed (provider ((yes_env three_commits)\<lparr>provider := failing_provider\<rparr>) i r))
   \<and> orderedMessages (git ((yes_env three_commits)\<lparr>provider := failing_provider\<rparr>)) (messageMap (process_commits (constructor_options no_options) ((yes_env three_commits)\<lparr>provider := failing_provider\<rparr>) 0 [''a1'', ''b2'', ''c3''] initial_loop_state)) [''a1'', ''b2'', ''c3'']
       = Inr [''initial'', ''update'', ''wip'']
   \<and> history (final (rewrite (constructor_options no_options) ((yes_env three_commits)\<lparr>provider := failing_provider\<rparr>) (world_of three_commits))) = history (world_of three_commits)
   \<and> outcome (rewrite (constructor_options no_options) ((yes_env three_commits)\<lparr>provider := failing_provider\<rparr>) (world_of three_commits)) = NothingToChange
   \<and> outcome (rewrite (constructor_options no_options) ((yes_env three_commits)\<lparr>git := (git_of three_commits)(RevListReverse := None),
          provider := failing_provider\<rparr>) (world_of three_commits)) = Thrown (CommandFailed RevListReverse)
   \<and> git_failure (git ((yes_env three_commits)\<lparr>git := (git_of three_commits)(RevListReverse := None),
          provider := failing_provider\<rparr>)) (CommandFailed RevListReverse)
   \<and> (\<forall>r. provider_failed (provider ((yes_env three_commits)\<lparr>provider := flaky_provider\<rparr>) 2 r))
   \<and> messageMap (process_commits (constructor_options no_options) ((yes_env three_commits)\<lparr>provider := flaky_provider\<rparr>) 0 [''a1'', ''b2'', ''c3''] initial_loop_state) = [(''a1'', ''chore: add readme''), (''b2'', ''feat: add parser'')]
   \<and> (\<exists>plan. orderedMessages (git ((yes_env three_commits)\<lparr>provider := flaky_provider\<rparr>)) (messageMap (process_commits (constructor_options no_options) ((yes_env three_commits)\<lparr>provider := flaky_provider\<rparr>) 0 [''a1'', ''b2'', ''c3''] initial_loop_state)) [''a1'', ''b2'', ''c3''] = Inr plan
          \<and> plan ! 2 = ''wip'')
   \<and> (\<forall>r. helpful_provider 0 r = provider ((yes_env three_commits)\<lparr>provider := flaky_provider\<rparr>) 0 r)
   \<and> map_of (messageMap (process_commits (constructor_options no_options) (((yes_env three_commits)\<lparr>provider := flaky_provider\<rparr>)\<lparr>provider := helpful_provider\<rparr>) 0 [''a1'', ''b2'', ''c3'']
                   initial_loop_state)) ([''a1'', ''b2'', ''c3''] ! 0)
       = map_of (messageMap (process_commits (constructor_options no_options) ((yes_env three_commits)\<lparr>provider := flaky_provider\<rparr>) 0 [''a1'', ''b2'', ''c3''] initial_loop_state)) ([''a1'', ''b2'', ''c3''] ! 0)"
proof -
  have pf: "\<forall>i r. provider_failed (provider ((yes_env three_commits)\<lparr>provider := failing_provider\<rparr>) i r)"
    by (simp add: failing_provider_def provider_failed_def trim_def is_space_def)
  have pf2: "\<forall>i r. provider_failed (provider ((yes_env three_commits)\<lparr>git := (git_of three_commits)(RevListReverse := None),
          provider := failing_provider\<rparr>) i r)"
    by (simp add: failing_provider_def provider_failed_def trim_def is_space_def)
  have pf3: "\<forall>r. provider_failed (provider ((yes_env three_commits)\<lparr>provider := flaky_provider\<rparr>) 2 r)"
    by (simp add: flaky_provider_def provider_failed_def)
  have own: "\<forall>r. helpful_provider 0 r = provider ((yes_env three_commits)\<lparr>provider := flaky_provider\<rparr>) 0 r"
    by (simp add: flaky_provider_def)
  have b1: "\<And>h. h \<in> set [''a1'', ''b2'', ''c3''] \<Longrightarrow> git ((yes_env three_commits)\<lparr>provider := failing_provider\<rparr>) (LogBody h) = Some ((\<lambda>h. (if h = ''a1'' then ''initial'' else if h = ''b2'' then ''update'' else ''wip'') @ [newline]) h)"
    by (auto simp: yes_env_def git_of_def find_commit_def three_commits_def)
  have b3: "\<And>h. h \<in> set [''a1'', ''b2'', ''c3''] \<Longrightarrow> git ((yes_env three_commits)\<lparr>provider := flaky_provider\<rparr>) (LogBody h) = Some ((\<lambda>h. (if h = ''a1'' then ''initial'' else if h = ''b2'' then ''update'' else ''wip'') @ [newline]) h)"
    by (auto simp: yes_env_def git_of_def find_commit_def three_commits_def)
  have none: "\<And>h. h \<in> set [] \<Longrightarrow> git ((yes_env three_commits)\<lparr>git := (git_of three_commits)(RevListReverse := None),
          provider := failing_provider\<rparr>) (LogBody h) = Some ((\<lambda>h. []) h)"
    by simp
  have tr: "map (\<lambda>h. trim ((\<lambda>h. (if h = ''a1'' then ''initial'' else if h = ''b2'' then ''update'' else ''wip'') @ [newline]) h)) [''a1'', ''b2'', ''c3''] = [''initial'', ''update'', ''wip'']"
    by (simp add: trim_def is_space_def newline_def)
  have tr2: "trim ((\<lambda>h. (if h = ''a1'' then ''initial'' else if h = ''b2'' then ''update'' else ''wip'') @ [newline]) ([''a1'', ''b2'', ''c3''] ! 2)) = ''wip''"
    by (simp add: trim_def is_space_def newline_def)
  have dk: "distinct [''a1'', ''b2'', ''c3''] \<and> (2::nat) < length [''a1'', ''b2'', ''c3'']" by simp
  have dj: "distinct [''a1'', ''b2'', ''c3''] \<and> (0::nat) < length [''a1'', ''b2'', ''c3'']" by simp
  have mm3: "messageMap (process_commits (constructor_options no_options) ((yes_env three_commits)\<lparr>provider := flaky_provider\<rparr>) 0 [''a1'', ''b2'', ''c3''] initial_loop_state) = [(''a1'', ''chore: add readme''), (''b2'', ''feat: add parser'')]"
    by code_simp
  note t1 = provider_failures_keep_every_message
      [where commits = "[''a1'', ''b2'', ''c3'']" and e = "((yes_env three_commits)\<lparr>provider := failing_provider\<rparr>)"
         and body = "(\<lambda>h. (if h = ''a1'' then ''initial'' else if h = ''b2'' then ''update'' else ''wip'') @ [newline])" and options = "(constructor_options no_options)" and w = "(world_of three_commits)", OF b1]
  note t2 = provider_failures_keep_every_message
      [where commits = "[]" and e = "((yes_env three_commits)\<lparr>git := (git_of three_commits)(RevListReverse := None),
          provider := failing_provider\<rparr>)"
         and body = "\<lambda>h. []" and options = "(constructor_options no_options)" and w = "(world_of three_commits)", OF none]
  note t3 = provider_failures_keep_every_message
      [where commits = "[''a1'', ''b2'', ''c3'']" and e = "((yes_env three_commits)\<lparr>provider := flaky_provider\<rparr>)"
         and body = "(\<lambda>h. (if h = ''a1'' then ''initial'' else if h = ''b2'' then ''update'' else ''wip'') @ [newline])" and options = "(constructor_options no_options)" and w = "(world_of three_commits)" and k = 2 and j = 0
         and p = helpful_provider, OF b3]
  from t1 pf have om: "orderedMessages (git ((yes_env three_commits)\<lparr>provider := failing_provider\<rparr>)) (messageMap (process_commits (constructor_options no_options) ((yes_env three_commits)\<lparr>provider := failing_provider\<rparr>) 0 [''a1'', ''b2'', ''c3''] initial_loop_state)) [''a1'', ''b2'', ''c3'']
       = Inr [''initial'', ''update'', ''wip'']"
    unfolding tr by blast
  from t1 pf have h: "history (final (rewrite (constructor_options no_options) ((yes_env three_commits)\<lparr>provider := failing_provider\<rparr>) (world_of three_commits))) = history (world_of three_commits)"
    by blast
  have oc: "outcome (rewrite (constructor_options no_options) ((yes_env three_commits)\<lparr>provider := failing_provider\<rparr>) (world_of three_commits)) = NothingToChange"
    by (simp add: run_provider_down)
  from t2 run_provider_down_no_list
  have gf: "git_failure (git ((yes_env three_commits)\<lparr>git := (git_of three_commits)(RevListReverse := None),
          provider := failing_provider\<rparr>)) (CommandFailed RevListReverse)"
    by blast
  from t3 dk pf3 have "\<exists>plan. orderedMessages (git ((yes_env three_commits)\<lparr>provider := flaky_provider\<rparr>)) (messageMap (process_commits (constructor_options no_options) ((yes_env three_commits)\<lparr>provider := flaky_provider\<rparr>) 0 [''a1'', ''b2'', ''c3''] initial_loop_state)) [''a1'', ''b2'', ''c3''] = Inr plan
          \<and> plan ! 2 = trim ((\<lambda>h. (if h = ''a1'' then ''initial'' else if h = ''b2'' then ''update'' else ''wip'') @ [newline]) ([''a1'', ''b2'', ''c3''] ! 2))"
    by blast
  then have pl: "\<exists>plan. orderedMessages (git ((yes_env three_commits)\<lparr>provider := flaky_provider\<rparr>)) (messageMap (process_commits (constructor_options no_options) ((yes_env three_commits)\<lparr>provider := flaky_provider\<rparr>) 0 [''a1'', ''b2'', ''c3''] initial_loop_state)) [''a1'', ''b2'', ''c3''] = Inr plan
          \<and> plan ! 2 = ''wip''"
    unfolding tr2 .
  from t3 dj own
  have inv: "map_of (messageMap (process_commits (constructor_options no_options) (((yes_env three_commits)\<lparr>provider := flaky_provider\<rparr>)\<lparr>provider := helpful_provider\<rparr>) 0 [''a1'', ''b2'', ''c3'']
                   initial_loop_state)) ([''a1'', ''b2'', ''c3''] ! 0)
       = map_of (messageMap (process_commits (constructor_options no_options) ((yes_env three_commits)\<lparr>provider := flaky_provider\<rparr>) 0 [''a1'', ''b2'', ''c3''] initial_loop_state)) ([''a1'', ''b2'', ''c3''] ! 0)"
    by blast
  from pf om h oc run_provider_down_no_list gf pf3 mm3 pl own inv show ?thesis
    by blast
qed

text \<open>
  C10. The loop reads only the subject line \<open>%s\<close> of a commit: the message it assesses
  and compares the generated message with is the trimmed subject, and the loop's result
  does not depend on what \<open>git log --format=%B\<close> answers. The entry of the ordered list for
  a commit that was skipped, kept or failed is its full message \<open>%B\<close>, trimmed; the
  entry for an improved commit is the generated message alone.
\<close>

theorem kept_commit_keeps_body_improved_loses_it:
  assumes "distinct commits" and "k < length commits"
    and "orderedMessages (git e)
           (messageMap (process_commits options e 0 commits initial_loop_state)) commits
         = Inr plan"
    and "git e (LogBody (commits ! k)) = Some full"
  shows "plan ! k =
           (case getCommitInfo (git e) (commits ! k) k of
              Inl err \<Rightarrow> trim full
            | Inr commitInfo \<Rightarrow>
                if truthy (skipWellFormed options)
                   \<and> isWellFormed (assessCommitQuality options (message commitInfo))
                then trim full
                else if generateCommitMessage (provider e k)
                          (diff commitInfo) (files commitInfo) (message commitInfo)
                        \<noteq> message commitInfo
                then generateCommitMessage (provider e k)
                       (diff commitInfo) (files commitInfo) (message commitInfo)
                else trim full)
       \<and> (\<forall>commitInfo subject.
             getCommitInfo (git e) (commits ! k) k = Inr commitInfo
             \<and> git e (LogSubject (commits ! k)) = Some subject
             \<longrightarrow> message commitInfo = trim subject)
       \<and> (\<forall>h x. process_commits options (e\<lparr>git := (git e)(LogBody h := x)\<rparr>) 0 commits
                    initial_loop_state
                = process_commits options e 0 commits initial_loop_state)"
proof (intro conjI allI impI)
  from orderedMessages_Inr [OF assms(3)] assms(2)
  have "plan_entry (git e)
          (messageMap (process_commits options e 0 commits initial_loop_state)) (commits ! k)
        = Inr (plan ! k)"
    by blast
  with plan_entry_at [OF assms(1,2), of e options] assms(4)
  have "Inr (plan ! k) =
          (case new_message_for options e k (commits ! k) of
             Some m \<Rightarrow> Inr m | None \<Rightarrow> (Inr (trim full) :: error + string))"
    by (simp add: execCommand_def split: option.splits)
  then show "plan ! k =
           (case getCommitInfo (git e) (commits ! k) k of
              Inl err \<Rightarrow> trim full
            | Inr commitInfo \<Rightarrow>
                if truthy (skipWellFormed options)
                   \<and> isWellFormed (assessCommitQuality options (message commitInfo))
                then trim full
                else if generateCommitMessage (provider e k)
                          (diff commitInfo) (files commitInfo) (message commitInfo)
                        \<noteq> message commitInfo
                then generateCommitMessage (provider e k)
                       (diff commitInfo) (files commitInfo) (message commitInfo)
                else trim full)"
    by (auto simp: new_message_for_def split: sum.splits if_splits)
next
  fix commitInfo subject
  assume "getCommitInfo (git e) (commits ! k) k = Inr commitInfo
             \<and> git e (LogSubject (commits ! k)) = Some subject"
  then show "message commitInfo = trim subject"
    using getCommitInfo_message by blast
next
  fix h x
  show "process_commits options (e\<lparr>git := (git e)(LogBody h := x)\<rparr>) 0 commits
                    initial_loop_state
                = process_commits options e 0 commits initial_loop_state"
    by (rule process_commits_ignores_body)
qed


theorem kept_commit_keeps_body_improved_loses_it_witness:
  "distinct [''d1'', ''e2'', ''f3'']
   \<and> orderedMessages (git ((yes_env described_commits)\<lparr>provider := echo_provider\<rparr>))
        (messageMap (process_commits (constructor_options no_options) ((yes_env described_commits)\<lparr>provider := echo_provider\<rparr>) 0 [''d1'', ''e2'', ''f3''] initial_loop_state))
        [''d1'', ''e2'', ''f3'']
      = Inr [''feat: add parser'' @ [newline, newline] @ ''Hand-written, no generator.'',
          ''wip'' @ [newline, newline] @ ''Cache lookups in the resolver.'',
          ''fix(net): close socket on exit'']
   \<and> git ((yes_env described_commits)\<lparr>provider := echo_provider\<rparr>) (LogSubject ''e2'') = Some (''wip'' @ [newline])
   \<and> git ((yes_env described_commits)\<lparr>provider := echo_provider\<rparr>) (LogBody ([''d1'', ''e2'', ''f3''] ! 1)) = Some (''wip'' @ [newline, newline] @ ''Cache lookups in the resolver.'' @ [newline])
   \<and> [''feat: add parser'' @ [newline, newline] @ ''Hand-written, no generator.'',
          ''wip'' @ [newline, newline] @ ''Cache lookups in the resolver.'',
          ''fix(net): close socket on exit''] ! 1 = ''wip'' @ [newline, newline] @ ''Cache lookups in the resolver.''
   \<and> git ((yes_env described_commits)\<lparr>provider := echo_provider\<rparr>) (LogBody ([''d1'', ''e2'', ''f3''] ! 2)) = Some (''update'' @ [newline, newline] @ ''Closes the socket on exit.'' @ [newline])
   \<and> [''feat: add parser'' @ [newline, newline] @ ''Hand-written, no generator.'',
          ''wip'' @ [newline, newline] @ ''Cache lookups in the resolver.'',
          ''fix(net): close socket on exit''] ! 2 = ''fix(net): close socket on exit''"
proof -
  have d: "distinct [''d1'', ''e2'', ''f3'']" by simp
  have k1: "(1::nat) < length [''d1'', ''e2'', ''f3'']" by simp
  have k2: "(2::nat) < length [''d1'', ''e2'', ''f3'']" by simp
  have om: "orderedMessages (git ((yes_env described_commits)\<lparr>provider := echo_provider\<rparr>))
        (messageMap (process_commits (constructor_options no_options) ((yes_env described_commits)\<lparr>provider := echo_provider\<rparr>) 0 [''d1'', ''e2'', ''f3''] initial_loop_state))
        [''d1'', ''e2'', ''f3'']
      = Inr [''feat: add parser'' @ [newline, newline] @ ''Hand-written, no generator.'',
          ''wip'' @ [newline, newline] @ ''Cache lookups in the resolver.'',
          ''fix(net): close socket on exit'']"
    by code_simp
  have s1: "git ((yes_env described_commits)\<lparr>provider := echo_provider\<rparr>) (LogSubject ''e2'') = Some (''wip'' @ [newline])"
    by (simp add: yes_env_def git_of_def find_commit_def described_commits_def unlines_def)
  have b1: "git ((yes_env described_commits)\<lparr>provider := echo_provider\<rparr>) (LogBody ([''d1'', ''e2'', ''f3''] ! 1)) = Some (''wip'' @ [newline, newline] @ ''Cache lookups in the resolver.'' @ [newline])"
    by (simp add: yes_env_def git_of_def find_commit_def described_commits_def)
  have b2: "git ((yes_env described_commits)\<lparr>provider := echo_provider\<rparr>) (LogBody ([''d1'', ''e2'', ''f3''] ! 2)) = Some (''update'' @ [newline, newline] @ ''Closes the socket on exit.'' @ [newline])"
    by (simp add: yes_env_def git_of_def find_commit_def described_commits_def)
  have v1: "(case getCommitInfo (git ((yes_env described_commits)\<lparr>provider := echo_provider\<rparr>)) ([''d1'', ''e2'', ''f3''] ! 1) 1 of
              Inl err \<Rightarrow> trim (''wip'' @ [newline, newline] @ ''Cache lookups in the resolver.'' @ [newline])
            | Inr commitInfo \<Rightarrow>
                if truthy (skipWellFormed (constructor_options no_options))
                   \<and> isWellFormed (assessCommitQuality (constructor_options no_options) (message commitInfo))
                then trim (''wip'' @ [newline, newline] @ ''Cache lookups in the resolver.'' @ [newline])
                else if generateCommitMessage (provider ((yes_env described_commits)\<lparr>provider := echo_provider\<rparr>) 1)
                          (diff commitInfo) (files commitInfo) (message commitInfo)
                        \<noteq> message commitInfo
                then generateCommitMessage (provider ((yes_env described_commits)\<lparr>provider := echo_provider\<rparr>) 1)
                       (diff commitInfo) (files commitInfo) (message commitInfo)
                else trim (''wip'' @ [newline, newline] @ ''Cache lookups in the resolver.'' @ [newline])) = ''wip'' @ [newline, newline] @ ''Cache lookups in the resolver.''"
    by code_simp
  have v2: "(case getCommitInfo (git ((yes_env described_commits)\<lparr>provider := echo_provider\<rparr>)) ([''d1'', ''e2'', ''f3''] ! 2) 2 of
              Inl err \<Rightarrow> trim (''update'' @ [newline, newline] @ ''Closes the socket on exit.'' @ [newline])
            | Inr commitInfo \<Rightarrow>
                if truthy (skipWellFormed (constructor_options no_options))
                   \<and> isWellFormed (assessCommitQuality (constructor_options no_options) (message commitInfo))
                then trim (''update'' @ [newline, newline] @ ''Closes the socket on exit.'' @ [newline])
                else if generateCommitMessage (provider ((yes_env described_commits)\<lparr>provider := echo_provider\<rparr>) 2)
                          (diff commitInfo) (files commitInfo) (message commitInfo)
                        \<noteq> message commitInfo
                then generateCommitMessage (provider ((yes_env described_commits)\<lparr>provider := echo_provider\<rparr>) 2)
                       (diff commitInfo) (files commitInfo) (message commitInfo)
                else trim (''update'' @ [newline, newline] @ ''Closes the socket on exit.'' @ [newline])) = ''fix(net): close socket on exit''"
    by code_simp
  from kept_commit_keeps_body_improved_loses_it [OF d k1 om b1]
  have "[''feat: add parser'' @ [newline, newline] @ ''Hand-written, no generator.'',
          ''wip'' @ [newline, newline] @ ''Cache lookups in the resolver.'',
          ''fix(net): close socket on exit''] ! 1 = (case getCommitInfo (git ((yes_env described_commits)\<lparr>provider := echo_provider\<rparr>)) ([''d1'', ''e2'', ''f3''] ! 1) 1 of
              Inl err \<Rightarrow> trim (''wip'' @ [newline, newline] @ ''Cache lookups in the resolver.'' @ [newline])
            | Inr commitInfo \<Rightarrow>
                if truthy (skipWellFormed (constructor_options no_options))
                   \<and> isWellFormed (assessCommitQuality (constructor_options no_options) (message commitInfo))
                then trim (''wip'' @ [newline, newline] @ ''Cache lookups in the resolver.'' @ [newline])
                else if generateCommitMessage (provider ((yes_env described_commits)\<lparr>provider := echo_provider\<rparr>) 1)
                          (diff commitInfo) (files commitInfo) (message commitInfo)
                        \<noteq> message commitInfo
                then generateCommitMessage (provider ((yes_env described_commits)\<lparr>provider := echo_provider\<rparr>) 1)
                       (diff commitInfo) (files commitInfo) (message commitInfo)
                else trim (''wip'' @ [newline, newline] @ ''Cache lookups in the resolver.'' @ [newline]))"
    by blast
  then have p1: "[''feat: add parser'' @ [newline, newline] @ ''Hand-written, no generator.'',
          ''wip'' @ [newline, newline] @ ''Cache lookups in the resolver.'',
          ''fix(net): close socket on exit''] ! 1 = ''wip'' @ [newline, newline] @ ''Cache lookups in the resolver.''"
    using v1 by (rule trans)
  from kept_commit_keeps_body_improved_loses_it [OF d k2 om b2]
  have "[''feat: add parser'' @ [newline, newline] @ ''Hand-written, no generator.'',
          ''wip'' @ [newline, newline] @ ''Cache lookups in the resolver.'',
          ''fix(net): close socket on exit''] ! 2 = (case getCommitInfo (git ((yes_env described_commits)\<lparr>provider := echo_provider\<rparr>)) ([''d1'', ''e2'', ''f3''] ! 2) 2 of
              Inl err \<Rightarrow> trim (''update'' @ [newline, newline] @ ''Closes the socket on exit.'' @ [newline])
            | Inr commitInfo \<Rightarrow>
                if truthy (skipWellFormed (constructor_options no_options))
                   \<and> isWellFormed (assessCommitQuality (constructor_options no_options) (message commitInfo))
                then trim (''update'' @ [newline, newline] @ ''Closes the socket on exit.'' @ [newline])
                else if generateCommitMessage (provider ((yes_env described_commits)\<lparr>provider := echo_provider\<rparr>) 2)
                          (diff commitInfo) (files commitInfo) (message commitInfo)
                        \<noteq> message commitInfo
                then generateCommitMessage (provider ((yes_env described_commits)\<lparr>provider := echo_provider\<rparr>) 2)
                       (diff commitInfo) (files commitInfo) (message commitInfo)
                else trim (''update'' @ [newline, newline] @ ''Closes the socket on exit.'' @ [newline]))"
    by blast
  then have p2: "[''feat: add parser'' @ [newline, newline] @ ''Hand-written, no generator.'',
          ''wip'' @ [newline, newline] @ ''Cache lookups in the resolver.'',
          ''fix(net): close socket on exit''] ! 2 = ''fix(net): close socket on exit''"
    using v2 by (rule trans)
  from d om s1 b1 b2 p1 p2 show ?thesis by blast
qed

end
